theory Spec2Isabelle
  imports Complex_Main "HOL-Library.Sublist"
begin

section \<open>JavaScript values and the browser's localStorage\<close>

text \<open>
  A JavaScript number is a finite value, \<open>NaN\<close> or an infinity. Optional object
  properties are \<open>option\<close>s: \<open>None\<close> is \<open>undefined\<close>.
\<close>

datatype jsnum = Finite rat | NaN | PosInfinity | NegInfinity

record cost =
  subtotal :: "jsnum option"
  bookingFee :: "jsnum option"
  balanceOnVisit :: "jsnum option"

text \<open>A booking, with the properties the code under study reads or writes.\<close>

record booking =
  id' :: "string option"
  userId :: "string option"
  petName :: "string option"
  date :: "string option"
  time :: "string option"
  status :: "string option"
  createdAt :: "int option"
  serverGenerated :: bool
  totalPrice :: "jsnum option"
  cost :: "cost option"

record user =
  userKey :: "string option"
  userName :: string

record groomer =
  groomerKey :: "string option"
  name :: string
  maxDailyBookings :: nat
  isActive :: bool

record logEntry =
  timestamp :: "int option"
  action :: string
  level :: string
  logUserId :: string
  sessionId :: string

record historyEntry =
  timestamp_h :: "int option"
  createdAt_h :: "int option"

record lock =
  startedAt :: "int option"

text \<open>
  The values \<open>JSON.parse\<close> can return for the keys of this application: an array of
  records of one kind, the \<open>actionLocks\<close> object (key to lock), or some other JSON
  object that is not an array (\<open>NotArray\<close>). All of them are truthy. Each key of the
  application holds text of its own kind of records, an object that is no array, or
  text that does not parse; where a function meets a value of a foreign kind, the model
  lets it take the path of an object that is no array.
\<close>

datatype jsvalue =
    NotArray
  | Bookings "booking list"
  | Users "user list"
  | Groomers "groomer list"
  | History "historyEntry list"
  | Logs "logEntry list"
  | Locks "(string \<times> lock) list"

text \<open>
  A stored string is classified by what \<open>JSON.parse\<close> makes of it: \<open>Garbled\<close> text
  makes it throw, \<open>Json v\<close> is the text \<open>JSON.stringify(v)\<close>. localStorage maps keys
  to stored strings; \<open>getItem\<close> of a missing key is \<open>null\<close> (\<open>None\<close>).
\<close>

datatype stored = Garbled | Json jsvalue

type_synonym localStorage = "string \<rightharpoonup> stored"

text \<open>
  \<open>localStorage.setItem\<close> can throw. Whether it does is decided by the browser, from
  the store, the key and the text: the model takes that decision as a function.
\<close>

datatype writeOutcome = Written | QuotaExceededError | OtherError

type_synonym browser = "localStorage \<Rightarrow> string \<Rightarrow> stored \<Rightarrow> writeOutcome"

definition setItem :: "browser \<Rightarrow> localStorage \<Rightarrow> string \<Rightarrow> stored \<Rightarrow> writeOutcome \<times> localStorage" where
  "setItem br ls k v = (case br ls k v of Written \<Rightarrow> (Written, ls(k \<mapsto> v)) | r \<Rightarrow> (r, ls))"

definition removeItem :: "localStorage \<Rightarrow> string \<Rightarrow> localStorage" where
  "removeItem ls k = ls(k := None)"

section \<open>booking-security-logger.js\<close>

definition STORAGE_KEY :: string where
  "STORAGE_KEY = ''bookingSecurityLogs''"

definition MAX_LOGS :: nat where
  "MAX_LOGS = 100"

definition cacheDuration :: int where
  "cacheDuration = 5000"

text \<open>The logger's own fields \<open>_cache\<close> (\<open>None\<close> is \<open>null\<close>) and \<open>_cacheTime\<close>.\<close>

record logger =
  cache :: "jsvalue option"
  cacheTime :: int

text \<open>
  \<open>getLogs\<close>: the cached value while it is younger than five seconds, otherwise the
  parsed stored text (an empty array when the key is missing), which becomes the cache.
  When parsing throws, a fresh empty array is returned and the cache is left alone.
  The boolean tells whether the returned array is the cache object itself, which
  \<open>saveLog\<close> then mutates in place.
\<close>

definition readLogs :: "logger \<Rightarrow> localStorage \<Rightarrow> int \<Rightarrow> jsvalue \<times> bool \<times> logger" where
  "readLogs lg ls now =
     (case ls STORAGE_KEY of
        None \<Rightarrow> (Logs [], True, lg\<lparr>cache := Some (Logs []), cacheTime := now\<rparr>)
      | Some Garbled \<Rightarrow> (Logs [], False, lg)
      | Some (Json v) \<Rightarrow> (v, True, lg\<lparr>cache := Some v, cacheTime := now\<rparr>))"

definition getLogs :: "logger \<Rightarrow> localStorage \<Rightarrow> int \<Rightarrow> jsvalue \<times> bool \<times> logger" where
  "getLogs lg ls now =
     (case cache lg of
        Some c \<Rightarrow> if now - cacheTime lg < cacheDuration then (c, True, lg) else readLogs lg ls now
      | None \<Rightarrow> readLogs lg ls now)"

text \<open>\<open>if (logs.length > MAX_LOGS) logs.splice(0, logs.length - MAX_LOGS)\<close>\<close>

definition trimLogs :: "'a list \<Rightarrow> 'a list" where
  "trimLogs logs = (if length logs > MAX_LOGS then drop (length logs - MAX_LOGS) logs else logs)"

text \<open>
  \<open>saveLog\<close>: push the entry, trim, write the array back and refresh the cache. Every
  failure is swallowed: a value without \<open>push\<close> and a throwing \<open>setItem\<close> leave the
  stored text as it was. \<open>now\<close> and \<open>now2\<close> are the two readings of \<open>Date.now()\<close>.
\<close>

definition saveLog :: "browser \<Rightarrow> logger \<Rightarrow> localStorage \<Rightarrow> logEntry \<Rightarrow> int \<Rightarrow> int \<Rightarrow> logger \<times> localStorage" where
  "saveLog br lg ls logEntry now now2 =
     (case getLogs lg ls now of
        (Logs logs, aliased, lg1) \<Rightarrow>
          (let logs' = trimLogs (logs @ [logEntry]);
               lg2 = (if aliased then lg1\<lparr>cache := Some (Logs logs')\<rparr> else lg1)
           in case setItem br ls STORAGE_KEY (Json (Logs logs')) of
                (Written, ls') \<Rightarrow> (lg2\<lparr>cache := Some (Logs logs'), cacheTime := now2\<rparr>, ls')
              | (_, ls') \<Rightarrow> (lg2, ls'))
      | (_, _, lg1) \<Rightarrow> (lg1, ls))"

text \<open>The persisted security log, when the stored text is an array of log entries.\<close>

definition persistedLogs :: "localStorage \<Rightarrow> logEntry list option" where
  "persistedLogs ls = (case ls STORAGE_KEY of Some (Json (Logs xs)) \<Rightarrow> Some xs | _ \<Rightarrow> None)"

definition capHolds :: "localStorage \<Rightarrow> bool" where
  "capHolds ls = (case persistedLogs ls of Some xs \<Rightarrow> length xs \<le> MAX_LOGS | None \<Rightarrow> True)"

section \<open>StorageManager\<close>






record bookingsCleanup =
  removed :: nat
  archived :: nat
  failed :: bool










text \<open>
  \<open>emergencyCleanup\<close>: four keys are removed; the stored bookings are cut down to the
  pending, confirmed and in-progress ones (a missing key reads as \<open>'[]'\<close>), and when
  parsing, filtering or writing throws, the bookings key is removed as well.
\<close>

definition isEssential :: "booking \<Rightarrow> bool" where
  "isEssential b = (status b \<in> {Some ''pending'', Some ''confirmed'', Some ''in-progress''})"

definition trimBookings :: "browser \<Rightarrow> localStorage \<Rightarrow> booking list \<Rightarrow> localStorage" where
  "trimBookings br ls bookings =
     (case setItem br ls ''bookings'' (Json (Bookings (filter isEssential bookings))) of
        (Written, ls') \<Rightarrow> ls'
      | (_, ls') \<Rightarrow> removeItem ls' ''bookings'')"

definition emergencyCleanup :: "browser \<Rightarrow> localStorage \<Rightarrow> localStorage" where
  "emergencyCleanup br ls =
     (let ls1 = removeItem ls ''bookingSecurityLogs'';
          ls2 = removeItem ls1 ''actionLocks'';
          ls3 = removeItem ls2 ''bookingSubmissionStatus'';
          ls4 = removeItem ls3 ''bookingHistory''
      in case ls4 ''bookings'' of
           None \<Rightarrow> trimBookings br ls4 []
         | Some Garbled \<Rightarrow> removeItem ls4 ''bookings''
         | Some (Json (Bookings bookings)) \<Rightarrow> trimBookings br ls4 bookings
         | Some (Json _) \<Rightarrow> removeItem ls4 ''bookings'')"

text \<open>
  \<open>writeImmediate(key, value)\<close>. \<open>serialized\<close> is the text to store
  (\<open>typeof value === 'string' ? value : JSON.stringify(value)\<close>), \<open>None\<close> when
  \<open>JSON.stringify\<close> throws. The result carries the storage operations performed, in
  order.
\<close>

datatype storageOp = SetItem string | EmergencyCleanup

definition writeImmediate ::
  "browser \<Rightarrow> localStorage \<Rightarrow> string \<Rightarrow> stored option \<Rightarrow> bool \<times> localStorage \<times> storageOp list" where
  "writeImmediate br ls key serialized =
     (case serialized of
        None \<Rightarrow> (False, ls, [])
      | Some text \<Rightarrow>
          (case setItem br ls key text of
             (Written, ls') \<Rightarrow> (True, ls', [SetItem key])
           | (QuotaExceededError, _) \<Rightarrow>
               (let ls1 = emergencyCleanup br ls in
                case setItem br ls1 key text of
                  (Written, ls2) \<Rightarrow> (True, ls2, [SetItem key, EmergencyCleanup, SetItem key])
                | (_, ls2) \<Rightarrow> (False, ls2, [SetItem key, EmergencyCleanup, SetItem key]))
           | (OtherError, _) \<Rightarrow> (False, ls, [SetItem key])))"

section \<open>firebase-db.js\<close>

subsection \<open>Errors and the permission checks\<close>

record jsError =
  code :: "string option"
  message :: "string option"

definition Error :: "string \<Rightarrow> jsError" where
  "Error m = \<lparr>code = None, message = Some m\<rparr>"

text \<open>What \<open>JSON.parse\<close> and \<open>localStorage.setItem\<close> throw.\<close>

definition syntaxError :: jsError where
  "syntaxError = Error ''Unexpected token in JSON''"

definition storageError :: jsError where
  "storageError = Error ''Failed to execute setItem on Storage''"

text \<open>\<open>String.prototype.includes\<close> and \<open>toLowerCase\<close> (on ASCII letters).\<close>

fun includesJS :: "string \<Rightarrow> string \<Rightarrow> bool" where
  "includesJS [] t = (t = [])"
| "includesJS (c # s) t = (prefix t (c # s) \<or> includesJS s t)"

definition toLowerChar :: "char \<Rightarrow> char" where
  "toLowerChar c = (let n = (of_char c :: nat) in if 65 \<le> n \<and> n \<le> 90 then char_of (n + 32) else c)"

definition toLowerCase :: "string \<Rightarrow> string" where
  "toLowerCase s = map toLowerChar s"

text \<open>
  The check of the write paths and of \<open>getUsers\<close>:
  \<open>e.code === 'PERMISSION_DENIED' || (e.message && e.message.toLowerCase().includes('permission'))\<close>.
\<close>

definition isPermissionError :: "jsError \<Rightarrow> bool" where
  "isPermissionError e =
     (code e = Some ''PERMISSION_DENIED''
      \<or> (case message e of Some m \<Rightarrow> includesJS (toLowerCase m) ''permission'' | None \<Rightarrow> False))"

text \<open>
  The check of \<open>getBookings\<close> and \<open>getGroomers\<close>:
  \<open>error.message && error.message.includes('Permission denied')\<close>.
\<close>

definition saysPermissionDenied :: "jsError \<Rightarrow> bool" where
  "saysPermissionDenied e =
     (case message e of Some m \<Rightarrow> includesJS m ''Permission denied'' | None \<Rightarrow> False)"

subsection \<open>Module state and the remote database\<close>

text \<open>
  A remote read either rejects or yields a snapshot; \<open>Snapshot None\<close> is a snapshot
  for which \<open>exists()\<close> is false, \<open>Snapshot (Some data)\<close> carries the children by key,
  in the order in which \<open>Object.keys\<close> enumerates them.
  A remote write at a path resolves (\<open>None\<close>) or rejects with an error. Both are
  decided by the database, so the operations take them as arguments.
\<close>

datatype 'a remoteRead = Fails jsError | Snapshot "(string \<times> 'a) list option"

type_synonym remoteWrite = "string \<Rightarrow> jsError option"

text \<open>The calls made to the database: \<open>get(ref(db, path))\<close>, and \<open>set\<close> of one child
  \<open>bookings/id\<close> or of the whole \<open>bookings\<close> node.\<close>

datatype remoteCall =
    Get string
  | SetChild string booking
  | SetRoot "(string \<times> booking) list"

text \<open>
  The module-level variables of firebase-db.js, the fields of \<open>window\<close> it uses
  (\<open>firebaseDatabase\<close>, true when set; \<open>firebaseWriteDenied\<close>), localStorage, the
  calls made to the database so far and the events dispatched on \<open>window\<close>.
\<close>

record firebaseDb =
  firebaseDatabase :: bool
  firebaseWriteDenied :: bool
  usersCache :: "jsvalue option"
  usersCacheTime :: int
  usersPermissionDenied :: bool
  bookingsCache :: "booking list option"
  bookingsCacheTime :: int
  bookingsPermissionDenied :: bool
  groomersCache :: "groomer list option"
  groomersCacheTime :: int
  groomersPermissionDenied :: bool
  localStorage :: localStorage
  remoteCalls :: "remoteCall list"
  dispatched :: "(string \<times> booking) list"

definition USERS_CACHE_DURATION :: int where "USERS_CACHE_DURATION = 60000"
definition BOOKINGS_CACHE_DURATION :: int where "BOOKINGS_CACHE_DURATION = 30000"
definition GROOMERS_CACHE_DURATION :: int where "GROOMERS_CACHE_DURATION = 60000"

text \<open>\<open>JSON.parse(localStorage.getItem(key) || dflt)\<close>, which throws on garbled text.\<close>

definition parseOr :: "stored option \<Rightarrow> jsvalue \<Rightarrow> jsError + jsvalue" where
  "parseOr item dflt =
     (case item of None \<Rightarrow> Inr dflt | Some Garbled \<Rightarrow> Inl syntaxError | Some (Json v) \<Rightarrow> Inr v)"

definition called :: "firebaseDb \<Rightarrow> remoteCall list \<Rightarrow> firebaseDb" where
  "called st cs = st\<lparr>remoteCalls := remoteCalls st @ cs\<rparr>"

subsection \<open>Bookings\<close>

text \<open>\<open>{ id: key, ...bookingsData[key] }\<close>: the child's own \<open>id\<close> wins over the key.\<close>

definition withKey :: "string \<times> booking \<Rightarrow> booking" where
  "withKey kb = (case kb of (key, b) \<Rightarrow> (case id' b of None \<Rightarrow> b\<lparr>id' := Some key\<rparr> | Some _ \<Rightarrow> b))"

text \<open>The \<open>catch\<close> block of \<open>getBookings\<close>.\<close>

definition getBookings_catch :: "firebaseDb \<Rightarrow> jsError \<Rightarrow> (jsError + jsvalue) \<times> firebaseDb" where
  "getBookings_catch st error =
     (let st1 = (if saysPermissionDenied error then st\<lparr>bookingsPermissionDenied := True\<rparr> else st);
          fromStorage = (case parseOr (localStorage st1 ''bookings'') (Bookings []) of
                           Inr localBookings \<Rightarrow> Inr localBookings
                         | Inl e \<Rightarrow> Inr (Bookings []))
      in case bookingsCache st1 of
           Some c \<Rightarrow> if length c > 0 then (Inr (Bookings c), st1) else (fromStorage, st1)
         | None \<Rightarrow> (fromStorage, st1))"

definition bookingsCacheFresh :: "firebaseDb \<Rightarrow> int \<Rightarrow> bool" where
  "bookingsCacheFresh st now =
     (case bookingsCache st of
        Some c \<Rightarrow> length c > 0 \<and> now - bookingsCacheTime st < BOOKINGS_CACHE_DURATION
      | None \<Rightarrow> False)"

definition getBookings ::
  "browser \<Rightarrow> firebaseDb \<Rightarrow> int \<Rightarrow> booking remoteRead \<Rightarrow> (jsError + jsvalue) \<times> firebaseDb" where
  "getBookings br st now remote =
     (if bookingsPermissionDenied st then (parseOr (localStorage st ''bookings'') (Bookings []), st)
      else if bookingsCacheFresh st now then (Inr (Bookings (the (bookingsCache st))), st)
      else if \<not> firebaseDatabase st then
        (case parseOr (localStorage st ''bookings'') (Bookings []) of
           Inr v \<Rightarrow> (Inr v, st)
         | Inl e \<Rightarrow> getBookings_catch st e)
      else
        (let st1 = called st [Get ''bookings''] in
         case remote of
           Fails e \<Rightarrow> getBookings_catch st1 e
         | Snapshot None \<Rightarrow> (Inr (Bookings []), st1)
         | Snapshot (Some bookingsData) \<Rightarrow>
             (let bookings = map withKey bookingsData;
                  st2 = st1\<lparr>bookingsCache := Some bookings, bookingsCacheTime := now\<rparr>;
                  ls' = snd (setItem br (localStorage st2) ''bookings'' (Json (Bookings bookings)))
              in (Inr (Bookings bookings), st2\<lparr>localStorage := ls'\<rparr>))))"

text \<open>The NaN sanitisation shared by \<open>saveBookings\<close> and \<open>updateBooking\<close>.
  \<open>subtotalOrZero\<close> is \<open>booking.cost?.subtotal || 0\<close>.\<close>

definition subtotalOrZero :: "booking \<Rightarrow> jsnum" where
  "subtotalOrZero b =
     (case cost b of
        None \<Rightarrow> Finite 0
      | Some c \<Rightarrow> (case subtotal c of None \<Rightarrow> Finite 0 | Some NaN \<Rightarrow> Finite 0 | Some x \<Rightarrow> x))"

definition sanitizeTotalPrice :: "booking \<Rightarrow> booking" where
  "sanitizeTotalPrice b =
     (if totalPrice b = Some NaN then b\<lparr>totalPrice := Some (subtotalOrZero b)\<rparr> else b)"

definition sanitizeSubtotal :: "booking \<Rightarrow> booking" where
  "sanitizeSubtotal b =
     (case cost b of
        Some c \<Rightarrow> if subtotal c = Some NaN then b\<lparr>cost := Some (c\<lparr>subtotal := Some (Finite 0)\<rparr>)\<rparr> else b
      | None \<Rightarrow> b)"

definition sanitizeBalanceOnVisit :: "booking \<Rightarrow> booking" where
  "sanitizeBalanceOnVisit b =
     (case cost b of
        Some c \<Rightarrow> if balanceOnVisit c = Some NaN
                  then b\<lparr>cost := Some (c\<lparr>balanceOnVisit := Some (Finite 0)\<rparr>)\<rparr> else b
      | None \<Rightarrow> b)"

definition sanitize :: "booking \<Rightarrow> booking" where
  "sanitize b = sanitizeBalanceOnVisit (sanitizeSubtotal (sanitizeTotalPrice b))"

text \<open>
  \<open>bookingsObj[booking.id] = booking\<close>: a later booking with the same id replaces the
  earlier one; a missing id is the property name \<open>undefined\<close>. \<open>assign\<close> keeps the
  properties in the order of their creation.
\<close>

definition keyOf :: "booking \<Rightarrow> string" where
  "keyOf b = (case id' b of Some k \<Rightarrow> k | None \<Rightarrow> ''undefined'')"

fun assign :: "(string \<times> 'a) list \<Rightarrow> string \<Rightarrow> 'a \<Rightarrow> (string \<times> 'a) list" where
  "assign [] k v = [(k, v)]"
| "assign ((k', v') # obj) k v = (if k' = k then (k, v) # obj else (k', v') # assign obj k v)"

text \<open>
  The order in which \<open>Object.keys\<close> (and \<open>JSON.stringify\<close>) enumerate an object: first
  the property names that are array indices (the canonical decimal numerals below
  \<open>2^32 - 1\<close>) in ascending numeric order, then the other names in the order of their
  creation.
\<close>

definition isDigit :: "char \<Rightarrow> bool" where
  "isDigit c = (c \<in> set ''0123456789'')"

definition digitsValue :: "string \<Rightarrow> nat" where
  "digitsValue k = foldl (\<lambda>n c. 10 * n + (of_char c - 48)) 0 k"

definition isArrayIndex :: "string \<Rightarrow> bool" where
  "isArrayIndex k =
     (case k of
        [] \<Rightarrow> False
      | c # cs \<Rightarrow> list_all isDigit k \<and> (if c = CHR ''0'' then cs = [] else True)
                 \<and> digitsValue k < 4294967295)"

definition ownEntries :: "(string \<times> 'a) list \<Rightarrow> (string \<times> 'a) list" where
  "ownEntries obj =
     sort_key (\<lambda>kv. digitsValue (fst kv)) (filter (\<lambda>kv. isArrayIndex (fst kv)) obj)
       @ filter (\<lambda>kv. \<not> isArrayIndex (fst kv)) obj"

text \<open>
  \<open>bookingsObj\<close> after the \<open>forEach\<close>, as the list of its properties in the order
  \<open>Object.keys(bookingsObj)\<close> enumerates them.
\<close>

definition bookingsObj :: "booking list \<Rightarrow> (string \<times> booking) list" where
  "bookingsObj bookings =
     ownEntries (foldl (\<lambda>obj b. assign obj (keyOf b) (sanitize b)) [] bookings)"

text \<open>The outer \<open>catch\<close> of the write operations: mark the denial and rethrow.\<close>

definition write_catch :: "firebaseDb \<Rightarrow> jsError \<Rightarrow> (jsError + 'a) \<times> firebaseDb" where
  "write_catch st error =
     (Inl error, if isPermissionError error then st\<lparr>firebaseWriteDenied := True\<rparr> else st)"

definition invalidate :: "firebaseDb \<Rightarrow> firebaseDb" where
  "invalidate st = st\<lparr>bookingsCache := None, bookingsCacheTime := 0\<rparr>"

definition saveBookings ::
  "firebaseDb \<Rightarrow> booking list \<Rightarrow> remoteWrite \<Rightarrow> (jsError + unit) \<times> firebaseDb" where
  "saveBookings st bookings remoteSet =
     (if \<not> firebaseDatabase st then write_catch st (Error ''Firebase Database not initialized'')
      else
        (let obj = bookingsObj bookings;
             st1 = called st (map (\<lambda>(k, b). SetChild k b) obj)
         in if list_all (\<lambda>(k, b). remoteSet (''bookings/'' @ k) = None) obj
            then (Inr (), invalidate st1)
            else
              (let st2 = called st1 [SetRoot obj] in
               case remoteSet ''bookings'' of
                 None \<Rightarrow> (Inr (), invalidate st2)
               | Some rootErr \<Rightarrow>
                   write_catch
                     (if isPermissionError rootErr then st2\<lparr>firebaseWriteDenied := True\<rparr> else st2)
                     rootErr)))"

text \<open>\<open>!booking.id\<close>: the id is missing or the empty string.\<close>

definition missingId :: "booking \<Rightarrow> bool" where
  "missingId b = (case id' b of None \<Rightarrow> True | Some k \<Rightarrow> k = [])"

definition updateBooking ::
  "firebaseDb \<Rightarrow> booking \<Rightarrow> remoteWrite \<Rightarrow> (jsError + booking) \<times> firebaseDb" where
  "updateBooking st booking remoteSet =
     (if \<not> firebaseDatabase st then write_catch st (Error ''Firebase Database not initialized'')
      else if missingId booking then write_catch st (Error ''Invalid booking: missing id'')
      else
        (let b = sanitize booking;
             st1 = called st [SetChild (keyOf b) b]
         in case remoteSet (''bookings/'' @ keyOf b) of
              Some error \<Rightarrow> write_catch st1 error
            | None \<Rightarrow>
                (Inr b, (invalidate st1)\<lparr>dispatched := dispatched st1 @ [(''booking:updated'', b)]\<rparr>)))"

subsection \<open>Users\<close>

definition withUserKey :: "string \<times> user \<Rightarrow> user" where
  "withUserKey ku = (case ku of (key, u) \<Rightarrow> (case userKey u of None \<Rightarrow> u\<lparr>userKey := Some key\<rparr> | Some _ \<Rightarrow> u))"

text \<open>
  The tail of \<open>getUsers\<close>: the legacy Firestore handle (a global \<open>db\<close>, \<open>None\<close> when
  there is none; its failure returns the empty array) and the guarded localStorage
  fallback (\<open>Array.isArray(parsed) ? parsed : []\<close>).
\<close>

definition getUsers_fallback ::
  "firebaseDb \<Rightarrow> (jsError + user list) option \<Rightarrow> (jsError + jsvalue) \<times> firebaseDb" where
  "getUsers_fallback st firestore =
     (case firestore of
        Some (Inr users) \<Rightarrow> (Inr (Users users), st)
      | Some (Inl e) \<Rightarrow> (Inr (Users []), st)
      | None \<Rightarrow>
          (case localStorage st ''users'' of
             Some (Json (Users parsed)) \<Rightarrow> (Inr (Users parsed), st)
           | _ \<Rightarrow> (Inr (Users []), st)))"

text \<open>The Realtime Database attempt of \<open>getUsers\<close> with its \<open>catch\<close>.\<close>

definition getUsers_realtime ::
  "firebaseDb \<Rightarrow> int \<Rightarrow> user remoteRead \<Rightarrow> (jsError + user list) option \<Rightarrow> (jsError + jsvalue) \<times> firebaseDb" where
  "getUsers_realtime st now remote firestore =
     (if firebaseDatabase st then
        (let st1 = called st [Get ''users''] in
         case remote of
           Snapshot (Some usersData) \<Rightarrow> (Inr (Users (map withUserKey usersData)), st1)
         | Snapshot None \<Rightarrow> (Inr (Users []), st1)
         | Fails e \<Rightarrow>
             if isPermissionError e then
               (let st2 = st1\<lparr>usersPermissionDenied := True\<rparr> in
                case parseOr (localStorage st2 ''users'') (Users []) of
                  Inl err \<Rightarrow> (Inl err, st2)
                | Inr localUsers \<Rightarrow>
                    (Inr localUsers, st2\<lparr>usersCache := Some localUsers, usersCacheTime := now\<rparr>))
             else getUsers_fallback st1 firestore)
      else getUsers_fallback st firestore)"

definition usersCacheFresh :: "firebaseDb \<Rightarrow> int \<Rightarrow> bool" where
  "usersCacheFresh st now =
     (case usersCache st of
        Some c \<Rightarrow> now - usersCacheTime st < USERS_CACHE_DURATION
      | None \<Rightarrow> False)"

text \<open>
  \<open>getUsers\<close>. \<open>impl\<close> is the outcome of \<open>window.getUsersImpl()\<close>, \<open>None\<close> when no such
  function is installed.
\<close>

definition getUsers ::
  "firebaseDb \<Rightarrow> int \<Rightarrow> (jsError + user list) option \<Rightarrow> user remoteRead \<Rightarrow> (jsError + user list) option
     \<Rightarrow> (jsError + jsvalue) \<times> firebaseDb" where
  "getUsers st now impl remote firestore =
     (if usersPermissionDenied st then (parseOr (localStorage st ''users'') (Users []), st)
      else if usersCacheFresh st now then (Inr (the (usersCache st)), st)
      else
        (case impl of
           Some (Inr users) \<Rightarrow>
             (Inr (Users users), st\<lparr>usersCache := Some (Users users), usersCacheTime := now\<rparr>)
         | _ \<Rightarrow> getUsers_realtime st now remote firestore))"

subsection \<open>Groomers\<close>

definition DEFAULT_GROOMERS :: "groomer list" where
  "DEFAULT_GROOMERS =
     [\<lparr>groomerKey = Some ''groomer-1'', name = ''Groomer 1'', maxDailyBookings = 5, isActive = True\<rparr>,
      \<lparr>groomerKey = Some ''groomer-2'', name = ''Groomer 2'', maxDailyBookings = 5, isActive = True\<rparr>,
      \<lparr>groomerKey = Some ''groomer-3'', name = ''Groomer 3'', maxDailyBookings = 5, isActive = True\<rparr>]"

definition withGroomerKey :: "string \<times> groomer \<Rightarrow> groomer" where
  "withGroomerKey kg =
     (case kg of (key, g) \<Rightarrow> (case groomerKey g of None \<Rightarrow> g\<lparr>groomerKey := Some key\<rparr> | Some _ \<Rightarrow> g))"

text \<open>
  \<open>JSON.parse(localStorage.getItem('groomers') || 'null')\<close> followed by
  \<open>localGroomers && localGroomers.length > 0 ? localGroomers : DEFAULT_GROOMERS\<close>.
\<close>

definition localGroomersOrDefault :: "firebaseDb \<Rightarrow> jsError + groomer list" where
  "localGroomersOrDefault st =
     (case localStorage st ''groomers'' of
        Some Garbled \<Rightarrow> Inl syntaxError
      | Some (Json (Groomers localGroomers)) \<Rightarrow>
          Inr (if length localGroomers > 0 then localGroomers else DEFAULT_GROOMERS)
      | _ \<Rightarrow> Inr DEFAULT_GROOMERS)"

text \<open>The \<open>catch\<close> block of \<open>getGroomers\<close>; its own \<open>JSON.parse\<close> is not guarded.\<close>

definition getGroomers_catch :: "firebaseDb \<Rightarrow> int \<Rightarrow> jsError \<Rightarrow> (jsError + groomer list) \<times> firebaseDb" where
  "getGroomers_catch st now error =
     (let st1 = (if saysPermissionDenied error then st\<lparr>groomersPermissionDenied := True\<rparr> else st)
      in case localGroomersOrDefault st1 of
           Inl e \<Rightarrow> (Inl e, st1)
         | Inr result \<Rightarrow> (Inr result, st1\<lparr>groomersCache := Some result, groomersCacheTime := now\<rparr>))"

definition groomersCacheFresh :: "firebaseDb \<Rightarrow> int \<Rightarrow> bool" where
  "groomersCacheFresh st now =
     (case groomersCache st of
        Some c \<Rightarrow> length c > 0 \<and> now - groomersCacheTime st < GROOMERS_CACHE_DURATION
      | None \<Rightarrow> False)"

definition getGroomers ::
  "browser \<Rightarrow> firebaseDb \<Rightarrow> int \<Rightarrow> groomer remoteRead \<Rightarrow> (jsError + groomer list) \<times> firebaseDb" where
  "getGroomers br st now remote =
     (if groomersPermissionDenied st then (localGroomersOrDefault st, st)
      else if groomersCacheFresh st now then (Inr (the (groomersCache st)), st)
      else if \<not> firebaseDatabase st then
        (case localGroomersOrDefault st of
           Inr r \<Rightarrow> (Inr r, st)
         | Inl e \<Rightarrow> getGroomers_catch st now e)
      else
        (let st1 = called st [Get ''groomers''] in
         case remote of
           Fails e \<Rightarrow> getGroomers_catch st1 now e
         | Snapshot None \<Rightarrow> (Inr DEFAULT_GROOMERS, st1)
         | Snapshot (Some groomersData) \<Rightarrow>
             (let groomers = map withGroomerKey groomersData;
                  st2 = st1\<lparr>groomersCache := Some groomers, groomersCacheTime := now\<rparr>
              in case setItem br (localStorage st2) ''groomers'' (Json (Groomers groomers)) of
                   (Written, ls') \<Rightarrow> (Inr groomers, st2\<lparr>localStorage := ls'\<rparr>)
                 | (_, ls') \<Rightarrow> getGroomers_catch st2 now storageError)))"

section \<open>The booking submission flow\<close>

text \<open>
  The branch of \<open>createBookingSecure\<close> taken when the transaction reports
  \<open>!result.committed\<close>. \<open>snapshot\<close> is \<open>result.snapshot.val()\<close> (\<open>None\<close> when the
  snapshot or its value is missing), its records listed in the order of
  \<open>Object.values\<close>, in which \<open>find\<close> searches them:
  \<open>(Date.now() - b.createdAt) < 10000\<close> is false for a record without \<open>createdAt\<close>.
\<close>

definition isRecentBooking ::
  "string option \<Rightarrow> booking \<Rightarrow> int \<Rightarrow> booking \<Rightarrow> bool" where
  "isRecentBooking uid bookingData now b =
     (userId b = uid \<and> date b = date bookingData \<and> time b = time bookingData
      \<and> petName b = petName bookingData \<and> serverGenerated b
      \<and> (case createdAt b of Some t \<Rightarrow> now - t < 10000 | None \<Rightarrow> False))"

definition createBookingSecure_notCommitted ::
  "string option \<Rightarrow> booking \<Rightarrow> int \<Rightarrow> (string \<times> booking) list option
     \<Rightarrow> jsError + booking" where
  "createBookingSecure_notCommitted uid bookingData now snapshot =
     (case snapshot of
        Some bookings \<Rightarrow>
          (case find (isRecentBooking uid bookingData now) (map snd bookings) of
             Some recentBooking \<Rightarrow> Inr recentBooking
           | None \<Rightarrow> Inl (Error ''Booking creation failed - possible duplicate detected''))
      | None \<Rightarrow> Inl (Error ''Booking creation failed - possible duplicate detected''))"

text \<open>
  Modelled from the spec: the cancelled variants of the booking status. The
  computation of \<open>isDuplicate\<close> in \<open>submitBooking\<close> (js/booking.js) is not among the
  sources, only the branch taken on a duplicate is; the status list of the spec names
  three cancelled variants.
\<close>

definition cancelledVariants :: "string list" where
  "cancelledVariants = [''cancelledByCustomer'', ''cancelledByAdmin'', ''cancelledBySystem'']"

text \<open>
  Modelled from the spec: the missing test for a cancelled booking; an active booking
  is one whose status is not one of the cancelled variants.
\<close>

definition isCancelled :: "booking \<Rightarrow> bool" where
  "isCancelled b = (case status b of Some s \<Rightarrow> s \<in> set cancelledVariants | None \<Rightarrow> False)"

text \<open>
  Modelled from the spec: the missing match of one known booking against the attempt.
  The spec scans the known bookings of the acting user for one whose \<open>petName\<close> matches
  (case-sensitive, exact), whose \<open>date\<close> and \<open>time\<close> match exactly and whose status is
  not a cancelled variant.
\<close>

definition conflictsWith :: "booking \<Rightarrow> booking \<Rightarrow> bool" where
  "conflictsWith booking b =
     (userId b = userId booking \<and> petName b = petName booking \<and> date b = date booking
      \<and> time b = time booking \<and> \<not> isCancelled b)"

text \<open>
  Modelled from the spec: the missing computation of \<open>isDuplicate\<close>, true when the scan
  finds a conflicting booking.
\<close>

definition isDuplicate :: "booking list \<Rightarrow> booking \<Rightarrow> bool" where
  "isDuplicate known booking = (find (conflictsWith booking) known \<noteq> None)"

text \<open>
  Modelled from the spec: the missing classification of an attempt, BLOCKED when the
  check finds a duplicate and ALLOWED otherwise.
\<close>

datatype classification = BLOCKED | ALLOWED

definition classify :: "booking list \<Rightarrow> booking \<Rightarrow> classification" where
  "classify known booking = (if isDuplicate known booking then BLOCKED else ALLOWED)"

text \<open>
  The state \<open>submitBooking\<close> works on: the submitting flag, the wizard step shown, the
  loading overlay, the warnings displayed, the submission tokens reported as failed and
  the booking records that exist.
\<close>

record page =
  isSubmittingBooking :: bool
  step :: nat
  loadingOverlay :: bool
  warnings :: "(string \<times> string) list"
  failedTokens :: "(string \<times> string) list"
  records :: "booking list"

definition show_s :: "string option \<Rightarrow> string" where
  "show_s x = (case x of Some s \<Rightarrow> s | None \<Rightarrow> ''undefined'')"

text \<open>
  The \<open>if (isDuplicate) { ... return; }\<close> branch of \<open>submitBooking\<close>, with the helpers
  \<open>completeSubmissionFailed\<close> and \<open>hideLoadingOverlay\<close> installed: the token, when
  there is one, is reported as failed, the overlay is hidden, the warning is shown, the
  submitting flag is reset and step 4 is shown. It returns before any creation call.
  In \<open>submitBooking\<close>, \<open>None\<close> stands for the path that goes on to create the
  booking, which is not among the sources.
\<close>

definition submitBooking_duplicate :: "page \<Rightarrow> string option \<Rightarrow> booking \<Rightarrow> page" where
  "submitBooking_duplicate pg submissionToken booking =
     (let pg1 = (case submissionToken of
                   Some tok \<Rightarrow>
                     if tok \<noteq> []
                     then pg\<lparr>failedTokens := failedTokens pg @ [(tok, ''Duplicate booking detected'')]\<rparr>
                     else pg
                 | None \<Rightarrow> pg);
          pg2 = pg1\<lparr>loadingOverlay := False\<rparr>;
          pg3 = pg2\<lparr>warnings := warnings pg2 @
                  [(''Duplicate Booking'',
                    ''You already have a pending booking for '' @ [CHR 0x22] @ show_s (petName booking)
                      @ [CHR 0x22] @ '' on '' @ show_s (date booking) @ '' at ''
                      @ show_s (time booking) @ ''.'' @ [CHR 0x0A, CHR 0x0A]
                      @ ''Please select a different date.'')]\<rparr>;
          pg4 = pg3\<lparr>isSubmittingBooking := False\<rparr>
      in pg4\<lparr>step := 4\<rparr>)"

definition submitBooking :: "page \<Rightarrow> booking list \<Rightarrow> string option \<Rightarrow> booking \<Rightarrow> page option" where
  "submitBooking pg known submissionToken booking =
     (if isDuplicate known booking then Some (submitBooking_duplicate pg submissionToken booking)
      else None)"

section \<open>Notions used to state the properties\<close>

text \<open>The store without the four keys that \<open>emergencyCleanup\<close> removes first.\<close>

definition evicted :: "localStorage \<Rightarrow> localStorage" where
  "evicted ls = ls(''bookingSecurityLogs'' := None, ''actionLocks'' := None,
                   ''bookingSubmissionStatus'' := None, ''bookingHistory'' := None)"

text \<open>The booking values a call hands to the database.\<close>

definition written :: "remoteCall \<Rightarrow> booking list" where
  "written c = (case c of Get p \<Rightarrow> [] | SetChild k b \<Rightarrow> [b] | SetRoot obj \<Rightarrow> map snd obj)"

text \<open>The calls made to the database between two states, the later one second.\<close>

definition newCalls :: "firebaseDb \<Rightarrow> firebaseDb \<Rightarrow> remoteCall list" where
  "newCalls st st' = drop (length (remoteCalls st)) (remoteCalls st')"

text \<open>No NaN in \<open>totalPrice\<close>, \<open>cost.subtotal\<close> and \<open>cost.balanceOnVisit\<close>.\<close>

definition noNaNTotals :: "booking \<Rightarrow> bool" where
  "noNaNTotals w =
     (totalPrice w \<noteq> Some NaN
      \<and> (case cost w of Some c \<Rightarrow> subtotal c \<noteq> Some NaN \<and> balanceOnVisit c \<noteq> Some NaN | None \<Rightarrow> True))"

text \<open>The per-child writes of \<open>saveBookings\<close>, and whether all of them resolve.\<close>

definition childWrites :: "(string \<times> booking) list \<Rightarrow> remoteCall list" where
  "childWrites obj = map (\<lambda>(k, b). SetChild k b) obj"

definition allChildrenResolve :: "remoteWrite \<Rightarrow> (string \<times> booking) list \<Rightarrow> bool" where
  "allChildrenResolve remoteSet obj = list_all (\<lambda>(k, b). remoteSet (''bookings/'' @ k) = None) obj"

text \<open>\<open>window.getUsersImpl\<close> is missing or throws.\<close>

definition implFails :: "(jsError + user list) option \<Rightarrow> bool" where
  "implFails impl = (case impl of Some (Inr users) \<Rightarrow> False | _ \<Rightarrow> True)"

text \<open>The groomers stored in localStorage, none when the text is no groomer array.\<close>

definition storedGroomers :: "firebaseDb \<Rightarrow> groomer list" where
  "storedGroomers st = (case localStorage st ''groomers'' of Some (Json (Groomers gs)) \<Rightarrow> gs | _ \<Rightarrow> [])"

section \<open>Example inputs\<close>

definition accepting :: browser where
  "accepting = (\<lambda>ls k v. Written)"

definition oldLog :: logEntry where
  "oldLog = \<lparr>timestamp = Some 1000, action = ''booking_blocked'', level = ''warning'',
              logUserId = ''anonymous'', sessionId = ''session-1''\<rparr>"

definition newLog :: logEntry where
  "newLog = \<lparr>timestamp = Some 2000, action = ''submission_failed'', level = ''error'',
              logUserId = ''u1'', sessionId = ''session-1''\<rparr>"

definition fullLogStore :: localStorage where
  "fullLogStore = [STORAGE_KEY \<mapsto> Json (Logs (replicate 100 oldLog))]"

definition coldLogger :: logger where
  "coldLogger = \<lparr>cache = None, cacheTime = 0\<rparr>"

definition mkBooking :: "string \<Rightarrow> string \<Rightarrow> int \<Rightarrow> booking" where
  "mkBooking k s t =
     \<lparr>id' = Some k, userId = Some ''u1'', petName = Some ''Max'', date = Some ''2025-06-01'',
      time = Some ''10:00 AM'', status = Some s, createdAt = Some t, serverGenerated = False,
      totalPrice = None, cost = None\<rparr>"



definition fullUntilEvicted :: browser where
  "fullUntilEvicted = (\<lambda>ls k v. if ls ''bookingSecurityLogs'' = None then Written else QuotaExceededError)"

definition crowdedStore :: localStorage where
  "crowdedStore =
     [''bookings'' \<mapsto> Json (Bookings [mkBooking ''b1'' ''completed'' 1000, mkBooking ''b3'' ''pending'' 1000]),
      ''bookingSecurityLogs'' \<mapsto> Json (Logs [oldLog]),
      ''bookingHistory'' \<mapsto> Json (History [])]"

definition onlineState :: firebaseDb where
  "onlineState =
     \<lparr>firebaseDatabase = True, firebaseWriteDenied = False,
      usersCache = None, usersCacheTime = 0, usersPermissionDenied = False,
      bookingsCache = None, bookingsCacheTime = 0, bookingsPermissionDenied = False,
      groomersCache = None, groomersCacheTime = 0, groomersPermissionDenied = False,
      localStorage = Map.empty, remoteCalls = [], dispatched = []\<rparr>"

definition resolves :: remoteWrite where
  "resolves = (\<lambda>path. None)"

definition nanFeeBooking :: booking where
  "nanFeeBooking = (mkBooking ''b9'' ''pending'' 5000)
     \<lparr>cost := Some \<lparr>subtotal = Some (Finite 500), bookingFee = Some NaN, balanceOnVisit = Some (Finite 400)\<rparr>\<rparr>"

definition nanBooking :: booking where
  "nanBooking = (mkBooking ''b8'' ''pending'' 5000)
     \<lparr>totalPrice := Some NaN,
      cost := Some \<lparr>subtotal = Some NaN, bookingFee = Some (Finite 100), balanceOnVisit = Some NaN\<rparr>\<rparr>"

definition denied :: jsError where
  "denied = \<lparr>code = Some ''PERMISSION_DENIED'', message = Some ''PERMISSION_DENIED: Permission denied''\<rparr>"

definition rejectsSecond :: remoteWrite where
  "rejectsSecond = (\<lambda>path. if path = ''bookings/b2'' \<or> path = ''bookings'' then Some denied else None)"

definition rejectsChildOnly :: remoteWrite where
  "rejectsChildOnly = (\<lambda>path. if path = ''bookings/b2'' then Some denied else None)"

definition twoBookings :: "booking list" where
  "twoBookings = [mkBooking ''b1'' ''pending'' 1000, mkBooking ''b2'' ''pending'' 2000]"

definition cachedState :: firebaseDb where
  "cachedState = onlineState
     \<lparr>bookingsCache := Some [mkBooking ''b1'' ''pending'' 1000], bookingsCacheTime := 1000,
      localStorage := [''bookings'' \<mapsto> Json (Bookings [mkBooking ''b1'' ''pending'' 1000])]\<rparr>"

definition latchedState :: firebaseDb where
  "latchedState = cachedState\<lparr>bookingsPermissionDenied := True\<rparr>"

definition editedBooking :: booking where
  "editedBooking = (mkBooking ''b1'' ''pending'' 1000)\<lparr>time := Some ''2:00 PM''\<rparr>"

definition freshSnapshot :: "booking remoteRead" where
  "freshSnapshot = Snapshot (Some [(''b1'', editedBooking)])"

definition garbledState :: firebaseDb where
  "garbledState = onlineState\<lparr>localStorage := [''groomers'' \<mapsto> Garbled, ''bookings'' \<mapsto> Garbled]\<rparr>"

definition timeout :: jsError where
  "timeout = Error ''Network timeout''"

definition bellaData :: booking where
  "bellaData =
     \<lparr>id' = None, userId = Some ''U'', petName = Some ''Bella'', date = Some ''2025-07-01'',
      time = Some ''2:00 PM'', status = Some ''pending'', createdAt = None, serverGenerated = False,
      totalPrice = None, cost = None\<rparr>"

definition recentRecord :: booking where
  "recentRecord = bellaData\<lparr>id' := Some ''k1'', createdAt := Some 997000, serverGenerated := True\<rparr>"

definition futureRecord :: booking where
  "futureRecord = bellaData\<lparr>id' := Some ''k1'', createdAt := Some 4600000, serverGenerated := True\<rparr>"

definition maxExisting :: booking where
  "maxExisting = mkBooking ''b1'' ''pending'' 1000"

definition maxAttempt :: booking where
  "maxAttempt = (mkBooking ''b2'' ''pending'' 5000)"

definition idlePage :: page where
  "idlePage = \<lparr>isSubmittingBooking = True, step = 6, loadingOverlay = True, warnings = [],
               failedTokens = [], records = [maxExisting]\<rparr>"

section \<open>Properties of the security logger\<close>

lemma trimLogs_length: "length (trimLogs xs) \<le> MAX_LOGS"
  by (simp add: trimLogs_def)

lemma trimLogs_drop: "trimLogs xs = drop (length xs - MAX_LOGS) xs"
  by (simp add: trimLogs_def)

lemma trimLogs_suffix: "suffix (trimLogs xs) xs"
  unfolding trimLogs_drop by (rule suffix_drop)

lemma trimLogs_last: "last (trimLogs (xs @ [e])) = e"
  by (simp add: trimLogs_drop MAX_LOGS_def)

lemma setItem_cases:
  "setItem br ls k v = (Written, ls(k \<mapsto> v)) \<and> br ls k v = Written
   \<or> setItem br ls k v = (br ls k v, ls) \<and> br ls k v \<noteq> Written"
  by (cases "br ls k v") (simp_all add: setItem_def)

lemma saveLog_written:
  assumes "getLogs lg ls now = (Logs xs, al, lg1)"
    and "br ls STORAGE_KEY (Json (Logs (trimLogs (xs @ [e])))) = Written"
  shows "snd (saveLog br lg ls e now now2) = ls(STORAGE_KEY \<mapsto> Json (Logs (trimLogs (xs @ [e]))))"
  using assms by (simp add: saveLog_def setItem_def Let_def)

lemma saveLog_storage:
  "snd (saveLog br lg ls e now now2) = ls
   \<or> (\<exists>xs. snd (saveLog br lg ls e now now2) = ls(STORAGE_KEY \<mapsto> Json (Logs (trimLogs xs))))"
proof (cases "getLogs lg ls now")
  case (fields v al lg1)
  show ?thesis
  proof (cases v)
    case (Logs xs)
    with fields show ?thesis
      using setItem_cases [of br ls STORAGE_KEY "Json (Logs (trimLogs (xs @ [e])))"]
      by (auto simp: saveLog_def Let_def split: writeOutcome.splits)
  qed (use fields in \<open>simp_all add: saveLog_def\<close>)
qed

lemma saveLog_capHolds: "capHolds ls \<Longrightarrow> capHolds (snd (saveLog br lg ls e now now2))"
  using saveLog_storage [of br lg ls e now now2]
  by (auto simp: capHolds_def persistedLogs_def trimLogs_length)

text \<open>
  C9. An append through \<open>saveLog\<close> keeps the persisted security log within
  \<open>MAX_LOGS = 100\<close> entries: the cap is preserved by every call, and when the array
  that \<open>getLogs\<close> returned is written back, the stored log is the appended array cut
  from the front (oldest entries first) down to at most 100 entries, so it is a suffix
  of the appended array, ends with the new entry and keeps the append order.
\<close>

theorem saveLog_keeps_cap_fifo:
  "(capHolds ls \<longrightarrow> capHolds (snd (saveLog br lg ls e now now2)))
   \<and> (getLogs lg ls now = (Logs xs, al, lg1)
        \<and> br ls STORAGE_KEY (Json (Logs (trimLogs (xs @ [e])))) = Written
      \<longrightarrow> (\<exists>ys. persistedLogs (snd (saveLog br lg ls e now now2)) = Some ys
             \<and> length ys \<le> 100
             \<and> ys = drop (length (xs @ [e]) - 100) (xs @ [e])
             \<and> suffix ys (xs @ [e])
             \<and> last ys = e))"
proof (intro conjI impI)
  assume "capHolds ls"
  then show "capHolds (snd (saveLog br lg ls e now now2))"
    by (rule saveLog_capHolds)
next
  assume a: "getLogs lg ls now = (Logs xs, al, lg1)
        \<and> br ls STORAGE_KEY (Json (Logs (trimLogs (xs @ [e])))) = Written"
  let ?ys = "trimLogs (xs @ [e])"
  have "snd (saveLog br lg ls e now now2) = ls(STORAGE_KEY \<mapsto> Json (Logs ?ys))"
    using a saveLog_written by blast
  then have "persistedLogs (snd (saveLog br lg ls e now now2)) = Some ?ys"
    by (simp add: persistedLogs_def)
  moreover have "length ?ys \<le> 100"
    using trimLogs_length [of "xs @ [e]"] by (simp add: MAX_LOGS_def)
  moreover have "?ys = drop (length (xs @ [e]) - 100) (xs @ [e])"
    using trimLogs_drop [of "xs @ [e]"] by (simp add: MAX_LOGS_def)
  moreover have "suffix ?ys (xs @ [e])"
    by (rule trimLogs_suffix)
  moreover have "last ?ys = e"
    by (rule trimLogs_last)
  ultimately show "\<exists>ys. persistedLogs (snd (saveLog br lg ls e now now2)) = Some ys
             \<and> length ys \<le> 100
             \<and> ys = drop (length (xs @ [e]) - 100) (xs @ [e])
             \<and> suffix ys (xs @ [e])
             \<and> last ys = e"
    by blast
qed

theorem saveLog_keeps_cap_fifo_witness:
  "capHolds fullLogStore
   \<and> capHolds (snd (saveLog accepting coldLogger fullLogStore newLog 2000 2001))
   \<and> persistedLogs (snd (saveLog accepting coldLogger fullLogStore newLog 2000 2001))
       = Some (replicate 99 oldLog @ [newLog])"
proof -
  have h1: "capHolds fullLogStore"
    by (simp add: capHolds_def persistedLogs_def fullLogStore_def MAX_LOGS_def)
  have h2: "getLogs coldLogger fullLogStore 2000
              = (Logs (replicate 100 oldLog), True,
                 coldLogger\<lparr>cache := Some (Logs (replicate 100 oldLog)), cacheTime := 2000\<rparr>)"
    by (simp add: getLogs_def readLogs_def coldLogger_def fullLogStore_def)
  have h3: "accepting fullLogStore STORAGE_KEY
              (Json (Logs (trimLogs (replicate 100 oldLog @ [newLog])))) = Written"
    by (simp add: accepting_def)
  have d: "drop (length (replicate 100 oldLog @ [newLog]) - 100) (replicate 100 oldLog @ [newLog])
             = replicate 99 oldLog @ [newLog]"
    by simp
  show ?thesis
    using saveLog_keeps_cap_fifo [of fullLogStore accepting coldLogger newLog 2000 2001
        "replicate 100 oldLog" True
        "coldLogger\<lparr>cache := Some (Logs (replicate 100 oldLog)), cacheTime := 2000\<rparr>"]
      h1 h2 h3 d
    by auto
qed

section \<open>Properties of the storage sweep\<close>




























section \<open>Properties of the immediate write\<close>

lemma trimBookings_result:
  "trimBookings br ls bs ''bookings'' = None
   \<or> trimBookings br ls bs ''bookings'' = Some (Json (Bookings (filter isEssential bs)))"
  by (cases "br ls ''bookings'' (Json (Bookings (filter isEssential bs)))")
     (simp_all add: trimBookings_def setItem_def removeItem_def)

lemma trimBookings_written:
  "br ls ''bookings'' (Json (Bookings (filter isEssential bs))) = Written \<Longrightarrow>
   trimBookings br ls bs ''bookings'' = Some (Json (Bookings (filter isEssential bs)))"
  by (simp add: trimBookings_def setItem_def)

lemma trimBookings_other: "k \<noteq> ''bookings'' \<Longrightarrow> trimBookings br ls bs k = ls k"
  by (cases "br ls ''bookings'' (Json (Bookings (filter isEssential bs)))")
     (simp_all add: trimBookings_def setItem_def removeItem_def)

lemma emergencyCleanup_removed:
  "emergencyCleanup br ls ''bookingSecurityLogs'' = None"
  "emergencyCleanup br ls ''actionLocks'' = None"
  "emergencyCleanup br ls ''bookingSubmissionStatus'' = None"
  "emergencyCleanup br ls ''bookingHistory'' = None"
  by (simp_all add: emergencyCleanup_def Let_def removeItem_def trimBookings_other
      split: option.splits stored.splits jsvalue.splits)

lemma emergencyCleanup_other:
  "k \<notin> {''bookingSecurityLogs'', ''actionLocks'', ''bookingSubmissionStatus'', ''bookingHistory'', ''bookings''}
   \<Longrightarrow> emergencyCleanup br ls k = ls k"
  by (simp add: emergencyCleanup_def Let_def removeItem_def trimBookings_other
      split: option.splits stored.splits jsvalue.splits)

lemma emergencyCleanup_bookings:
  "emergencyCleanup br ls ''bookings'' = None
   \<or> (\<exists>bs. emergencyCleanup br ls ''bookings'' = Some (Json (Bookings bs)) \<and> list_all isEssential bs)"
proof -
  have "trimBookings br l bs ''bookings'' = None
     \<or> (\<exists>bs'. trimBookings br l bs ''bookings'' = Some (Json (Bookings bs')) \<and> list_all isEssential bs')" for l bs
    using trimBookings_result [of br l bs] by (auto simp: list_all_iff)
  then show ?thesis
    by (simp add: emergencyCleanup_def Let_def removeItem_def
        split: option.splits stored.splits jsvalue.splits)
qed

lemma emergencyCleanup_trims:
  assumes "ls ''bookings'' = Some (Json (Bookings bs))"
    and "br (evicted ls) ''bookings'' (Json (Bookings (filter isEssential bs))) = Written"
  shows "emergencyCleanup br ls ''bookings'' = Some (Json (Bookings (filter isEssential bs)))"
  using assms
  by (simp add: emergencyCleanup_def Let_def removeItem_def evicted_def trimBookings_written)


text \<open>
  C8. When the first \<open>setItem\<close> of \<open>writeImmediate\<close> throws a quota error, the
  emergency cleanup runs and the write is attempted exactly once more; the call
  returns whether that second attempt was accepted (\<open>False\<close> when it was not, never an
  exception). The cleanup removes the security logs, the action locks, the submission
  status and the history, and leaves the stored bookings either removed or cut down to
  the pending, confirmed and in-progress records.
\<close>

theorem writeImmediate_quota_retry:
  assumes "br ls key text = QuotaExceededError"
  shows "writeImmediate br ls key (Some text)
           = (br (emergencyCleanup br ls) key text = Written,
              (if br (emergencyCleanup br ls) key text = Written
               then (emergencyCleanup br ls)(key \<mapsto> text) else emergencyCleanup br ls),
              [SetItem key, EmergencyCleanup, SetItem key])
       \<and> emergencyCleanup br ls ''bookingSecurityLogs'' = None
       \<and> emergencyCleanup br ls ''actionLocks'' = None
       \<and> emergencyCleanup br ls ''bookingSubmissionStatus'' = None
       \<and> emergencyCleanup br ls ''bookingHistory'' = None
       \<and> (emergencyCleanup br ls ''bookings'' = None
            \<or> (\<exists>bs. emergencyCleanup br ls ''bookings'' = Some (Json (Bookings bs))
                  \<and> list_all (\<lambda>b. status b \<in> {Some ''pending'', Some ''confirmed'', Some ''in-progress''}) bs))
       \<and> (\<forall>bs. ls ''bookings'' = Some (Json (Bookings bs))
                \<and> br (evicted ls) ''bookings''
                     (Json (Bookings (filter (\<lambda>b. status b \<in> {Some ''pending'', Some ''confirmed'', Some ''in-progress''}) bs))) = Written
              \<longrightarrow> emergencyCleanup br ls ''bookings''
                    = Some (Json (Bookings (filter (\<lambda>b. status b \<in> {Some ''pending'', Some ''confirmed'', Some ''in-progress''}) bs))))"
proof -
  have e: "isEssential = (\<lambda>b. status b \<in> {Some ''pending'', Some ''confirmed'', Some ''in-progress''})"
    by (rule ext) (simp add: isEssential_def)
  have w: "writeImmediate br ls key (Some text)
           = (br (emergencyCleanup br ls) key text = Written,
              (if br (emergencyCleanup br ls) key text = Written
               then (emergencyCleanup br ls)(key \<mapsto> text) else emergencyCleanup br ls),
              [SetItem key, EmergencyCleanup, SetItem key])"
    using assms
    by (cases "br (emergencyCleanup br ls) key text")
       (simp_all add: writeImmediate_def setItem_def Let_def)
  show ?thesis
    using w emergencyCleanup_removed [of br ls] emergencyCleanup_bookings [of br ls]
      emergencyCleanup_trims [of ls _ br]
    unfolding e by blast
qed

theorem writeImmediate_quota_retry_witness:
  "fullUntilEvicted crowdedStore ''customerProfiles'' (Json NotArray) = QuotaExceededError
   \<and> fst (writeImmediate fullUntilEvicted crowdedStore ''customerProfiles'' (Some (Json NotArray)))
   \<and> snd (snd (writeImmediate fullUntilEvicted crowdedStore ''customerProfiles'' (Some (Json NotArray))))
       = [SetItem ''customerProfiles'', EmergencyCleanup, SetItem ''customerProfiles'']
   \<and> emergencyCleanup fullUntilEvicted crowdedStore ''bookingSecurityLogs'' = None
   \<and> emergencyCleanup fullUntilEvicted crowdedStore ''bookings''
       = Some (Json (Bookings [mkBooking ''b3'' ''pending'' 1000]))"
proof -
  have q: "fullUntilEvicted crowdedStore ''customerProfiles'' (Json NotArray) = QuotaExceededError"
    by (simp add: fullUntilEvicted_def crowdedStore_def)
  note T = writeImmediate_quota_retry [of fullUntilEvicted crowdedStore "''customerProfiles''" "Json NotArray", OF q]
  have b: "crowdedStore ''bookings''
            = Some (Json (Bookings [mkBooking ''b1'' ''completed'' 1000, mkBooking ''b3'' ''pending'' 1000]))"
    by (simp add: crowdedStore_def)
  have a: "fullUntilEvicted (evicted crowdedStore) k v = Written" for k v
    by (simp add: fullUntilEvicted_def evicted_def)
  have c: "emergencyCleanup fullUntilEvicted crowdedStore ''bookings''
       = Some (Json (Bookings [mkBooking ''b3'' ''pending'' 1000]))"
    using T b a by (simp add: mkBooking_def)
  have r: "fullUntilEvicted (emergencyCleanup fullUntilEvicted crowdedStore) ''customerProfiles'' (Json NotArray) = Written"
    using T by (simp add: fullUntilEvicted_def)
  show ?thesis
    using q T c r by simp
qed

section \<open>Properties of the NaN sanitisation\<close>

lemma subtotalOrZero_not_NaN: "subtotalOrZero b \<noteq> NaN"
  by (auto simp: subtotalOrZero_def split: option.splits jsnum.splits)

lemma sanitize_totalPrice:
  "totalPrice (sanitize b) = (if totalPrice b = Some NaN then Some (subtotalOrZero b) else totalPrice b)"
  by (simp add: sanitize_def sanitizeTotalPrice_def sanitizeSubtotal_def sanitizeBalanceOnVisit_def
      split: option.splits)

lemma sanitize_cost:
  "cost (sanitize b) =
     map_option (\<lambda>c. c\<lparr>subtotal := (if subtotal c = Some NaN then Some (Finite 0) else subtotal c),
                        balanceOnVisit := (if balanceOnVisit c = Some NaN then Some (Finite 0) else balanceOnVisit c)\<rparr>)
       (cost b)"
  by (cases "cost b")
     (auto simp: sanitize_def sanitizeTotalPrice_def sanitizeSubtotal_def sanitizeBalanceOnVisit_def)

lemma sanitize_other:
  "id' (sanitize b) = id' b" "userId (sanitize b) = userId b" "petName (sanitize b) = petName b"
  "date (sanitize b) = date b" "time (sanitize b) = time b" "status (sanitize b) = status b"
  "createdAt (sanitize b) = createdAt b" "serverGenerated (sanitize b) = serverGenerated b"
  by (simp_all add: sanitize_def sanitizeTotalPrice_def sanitizeSubtotal_def sanitizeBalanceOnVisit_def
      split: option.splits)

lemma updateBooking_calls:
  "newCalls st (snd (updateBooking st b rs)) = []
   \<or> newCalls st (snd (updateBooking st b rs)) = [SetChild (keyOf (sanitize b)) (sanitize b)]"
  by (auto simp: updateBooking_def write_catch_def called_def invalidate_def newCalls_def Let_def
      split: option.splits)

lemma assign_member: "(k', w) \<in> set (assign obj k v) \<Longrightarrow> w = v \<or> w \<in> snd ` set obj"
  by (induction obj) (force split: if_splits)+

lemma assign_values: "snd ` set (assign obj k v) \<subseteq> insert v (snd ` set obj)"
  using assign_member by fastforce

lemma foldl_assign_values:
  "snd ` set (foldl (\<lambda>obj b. assign obj (keyOf b) (sanitize b)) acc bs)
     \<subseteq> snd ` set acc \<union> sanitize ` set bs"
proof (induction bs arbitrary: acc)
  case Nil
  then show ?case by simp
next
  case (Cons b bs)
  have "snd ` set (foldl (\<lambda>obj b. assign obj (keyOf b) (sanitize b)) (assign acc (keyOf b) (sanitize b)) bs)
          \<subseteq> snd ` set (assign acc (keyOf b) (sanitize b)) \<union> sanitize ` set bs"
    by (rule Cons.IH)
  also have "\<dots> \<subseteq> insert (sanitize b) (snd ` set acc) \<union> sanitize ` set bs"
    using assign_values [of acc "keyOf b" "sanitize b"] by blast
  finally show ?case by auto
qed

lemma set_ownEntries: "set (ownEntries obj) = set obj"
  by (auto simp: ownEntries_def)

lemma distinct_ownEntries: "distinct obj \<Longrightarrow> distinct (ownEntries obj)"
  by (auto simp: ownEntries_def)

lemma distinct_keys_ownEntries:
  assumes "distinct (map fst obj)"
  shows "distinct (map fst (ownEntries obj))"
proof -
  from assms have "distinct obj" and "inj_on fst (set obj)"
    by (simp_all add: distinct_map)
  then show ?thesis
    by (simp add: distinct_map set_ownEntries distinct_ownEntries)
qed

lemma ownEntries_plain:
  "list_all (\<lambda>kv. \<not> isArrayIndex (fst kv)) obj \<Longrightarrow> ownEntries obj = obj"
  by (simp add: ownEntries_def list_all_iff)

lemma ownEntries_indices_first:
  "ownEntries [(''10'', a), (''b7'', b), (''9'', c)] = [(''9'', c), (''10'', a), (''b7'', b)]"
  by (simp add: ownEntries_def isArrayIndex_def isDigit_def digitsValue_def)

lemma bookingsObj_values: "snd ` set (bookingsObj bs) \<subseteq> sanitize ` set bs"
  using foldl_assign_values [of "[]" bs] by (simp add: bookingsObj_def set_ownEntries)

lemma saveBookings_calls:
  "newCalls st (snd (saveBookings st bs rs)) = []
   \<or> newCalls st (snd (saveBookings st bs rs)) = map (\<lambda>(k, b). SetChild k b) (bookingsObj bs)
   \<or> newCalls st (snd (saveBookings st bs rs))
        = map (\<lambda>(k, b). SetChild k b) (bookingsObj bs) @ [SetRoot (bookingsObj bs)]"
  by (auto simp: saveBookings_def write_catch_def called_def invalidate_def newCalls_def Let_def
      split: option.splits)

lemma written_children: "concat (map written (map (\<lambda>(k, b). SetChild k b) obj)) = map snd obj"
  by (induction obj) (auto simp: written_def)

lemma saveBookings_written:
  "set (concat (map written (newCalls st (snd (saveBookings st bs rs))))) \<subseteq> sanitize ` set bs"
proof -
  have "set (concat (map written (newCalls st (snd (saveBookings st bs rs))))) \<subseteq> snd ` set (bookingsObj bs)"
    using saveBookings_calls [of st bs rs]
    by (auto simp: written_children written_def simp del: set_concat map_map)
  then show ?thesis
    using bookingsObj_values [of bs] by blast
qed

lemma updateBooking_written:
  "set (concat (map written (newCalls st (snd (updateBooking st b rs))))) \<subseteq> {sanitize b}"
  using updateBooking_calls [of st b rs] by (auto simp: written_def)

lemma sanitize_noNaNTotals: "noNaNTotals (sanitize b)"
  by (cases "cost b") (auto simp: noNaNTotals_def sanitize_totalPrice sanitize_cost subtotalOrZero_not_NaN)

text \<open>
  C6 (as amended). Every booking value that \<open>updateBooking\<close> or \<open>saveBookings\<close> hands
  to the database is the sanitised form of a booking passed in, and in it \<open>totalPrice\<close>,
  \<open>cost.subtotal\<close> and \<open>cost.balanceOnVisit\<close> are never NaN: a NaN \<open>totalPrice\<close> becomes
  \<open>cost.subtotal\<close>, or 0 when that is missing, NaN or 0; a NaN \<open>subtotal\<close> or
  \<open>balanceOnVisit\<close> becomes 0; every other value of these fields is written as it came.
  \<open>cost.bookingFee\<close> is written unchanged.
\<close>

theorem written_bookings_sanitized:
  "(\<forall>w \<in> set (concat (map written (newCalls st (snd (updateBooking st b rs))))).
       w = sanitize b \<and> noNaNTotals w)
   \<and> (\<forall>w \<in> set (concat (map written (newCalls st (snd (saveBookings st bs rs))))).
       w \<in> sanitize ` set bs \<and> noNaNTotals w)
   \<and> totalPrice (sanitize b)
       = (if totalPrice b = Some NaN then Some (subtotalOrZero b) else totalPrice b)
   \<and> subtotalOrZero b \<noteq> NaN
   \<and> map_option subtotal (cost (sanitize b))
       = map_option (\<lambda>c. if subtotal c = Some NaN then Some (Finite 0) else subtotal c) (cost b)
   \<and> map_option balanceOnVisit (cost (sanitize b))
       = map_option (\<lambda>c. if balanceOnVisit c = Some NaN then Some (Finite 0) else balanceOnVisit c) (cost b)
   \<and> map_option bookingFee (cost (sanitize b)) = map_option bookingFee (cost b)"
proof -
  have u: "\<forall>w \<in> set (concat (map written (newCalls st (snd (updateBooking st b rs))))).
       w = sanitize b \<and> noNaNTotals w"
    using updateBooking_written [of st b rs] sanitize_noNaNTotals by blast
  have s: "\<forall>w \<in> set (concat (map written (newCalls st (snd (saveBookings st bs rs))))).
       w \<in> sanitize ` set bs \<and> noNaNTotals w"
    using saveBookings_written [of st bs rs] sanitize_noNaNTotals by blast
  have c: "map_option subtotal (cost (sanitize b))
       = map_option (\<lambda>c. if subtotal c = Some NaN then Some (Finite 0) else subtotal c) (cost b)"
    "map_option balanceOnVisit (cost (sanitize b))
       = map_option (\<lambda>c. if balanceOnVisit c = Some NaN then Some (Finite 0) else balanceOnVisit c) (cost b)"
    "map_option bookingFee (cost (sanitize b)) = map_option bookingFee (cost b)"
    by (cases "cost b"; simp add: sanitize_cost)+
  show ?thesis
    using u s c sanitize_totalPrice [of b] subtotalOrZero_not_NaN [of b] by blast
qed

lemma updateBooking_online:
  "id' b = Some k \<Longrightarrow> k \<noteq> [] \<Longrightarrow>
   newCalls onlineState (snd (updateBooking onlineState b resolves)) = [SetChild k (sanitize b)]"
  by (simp add: updateBooking_def onlineState_def resolves_def missingId_def keyOf_def
      sanitize_other called_def invalidate_def newCalls_def Let_def)

theorem written_bookings_sanitized_witness:
  "sanitize nanBooking
     \<in> set (concat (map written (newCalls onlineState (snd (updateBooking onlineState nanBooking resolves)))))
   \<and> totalPrice (sanitize nanBooking) = Some (Finite 0)
   \<and> map_option subtotal (cost (sanitize nanBooking)) = Some (Some (Finite 0))
   \<and> map_option balanceOnVisit (cost (sanitize nanBooking)) = Some (Some (Finite 0))
   \<and> map_option bookingFee (cost (sanitize nanBooking)) = Some (Some (Finite 100))
   \<and> noNaNTotals (sanitize nanBooking)"
proof -
  have m: "sanitize nanBooking
     \<in> set (concat (map written (newCalls onlineState (snd (updateBooking onlineState nanBooking resolves)))))"
    using updateBooking_online [of nanBooking "''b8''"]
    by (simp add: nanBooking_def mkBooking_def written_def)
  note T = written_bookings_sanitized [of onlineState nanBooking resolves "[]"]
  have n: "noNaNTotals (sanitize nanBooking)"
    using T m by blast
  have v: "totalPrice nanBooking = Some NaN" "subtotalOrZero nanBooking = Finite 0"
    "cost nanBooking = Some \<lparr>subtotal = Some NaN, bookingFee = Some (Finite 100), balanceOnVisit = Some NaN\<rparr>"
    by (simp_all add: nanBooking_def mkBooking_def subtotalOrZero_def)
  show ?thesis
    using T m n v by simp
qed

text \<open>
  C6 as stated fails: a booking whose \<open>cost.bookingFee\<close> is NaN is written with that
  NaN, by \<open>updateBooking\<close> and by \<open>saveBookings\<close>.
\<close>

theorem bookingFee_NaN_is_written:
  "newCalls onlineState (snd (updateBooking onlineState nanFeeBooking resolves))
     = [SetChild ''b9'' nanFeeBooking]
   \<and> newCalls onlineState (snd (saveBookings onlineState [nanFeeBooking] resolves))
     = [SetChild ''b9'' nanFeeBooking]
   \<and> map_option bookingFee (cost nanFeeBooking) = Some (Some NaN)"
  by (simp add: saveBookings_def updateBooking_def onlineState_def resolves_def missingId_def keyOf_def
      called_def invalidate_def newCalls_def Let_def bookingsObj_def nanFeeBooking_def mkBooking_def
      sanitize_def sanitizeTotalPrice_def sanitizeSubtotal_def sanitizeBalanceOnVisit_def
      ownEntries_def isArrayIndex_def isDigit_def)

section \<open>Properties of saveBookings\<close>

lemma assign_keys: "fst ` set (assign obj k v) = insert k (fst ` set obj)"
proof (induction obj)
  case Nil
  show ?case by simp
next
  case (Cons p obj)
  obtain k' v' where p: "p = (k', v')" by (cases p)
  show ?case
  proof (cases "k' = k")
    case True
    with p show ?thesis by simp
  next
    case False
    have "fst ` set (assign (p # obj) k v) = insert k' (fst ` set (assign obj k v))"
      using p False by simp
    also have "\<dots> = insert k' (insert k (fst ` set obj))"
      by (simp only: Cons.IH)
    also have "\<dots> = insert k (fst ` set (p # obj))"
      using p by (simp add: insert_commute)
    finally show ?thesis .
  qed
qed

lemma assign_distinct: "distinct (map fst obj) \<Longrightarrow> distinct (map fst (assign obj k v))"
proof (induction obj)
  case Nil
  then show ?case by simp
next
  case (Cons p obj)
  obtain k' v' where p: "p = (k', v')" by (cases p)
  show ?case
  proof (cases "k' = k")
    case True
    with Cons.prems p show ?thesis by simp
  next
    case False
    have "k' \<notin> fst ` set (assign obj k v)"
      using Cons.prems p False by (simp add: assign_keys)
    with Cons p False show ?thesis by simp
  qed
qed

lemma foldl_assign_keys:
  "fst ` set (foldl (\<lambda>obj b. assign obj (keyOf b) (sanitize b)) acc bs) = fst ` set acc \<union> keyOf ` set bs"
  by (induction bs arbitrary: acc) (auto simp: assign_keys)

lemma foldl_assign_distinct:
  "distinct (map fst acc) \<Longrightarrow>
   distinct (map fst (foldl (\<lambda>obj b. assign obj (keyOf b) (sanitize b)) acc bs))"
  by (induction bs arbitrary: acc) (simp_all add: assign_distinct)

lemma bookingsObj_keys:
  "fst ` set (bookingsObj bs) = keyOf ` set bs" "distinct (map fst (bookingsObj bs))"
  using foldl_assign_keys [of "[]" bs] foldl_assign_distinct [of "[]" bs]
  by (simp_all add: bookingsObj_def set_ownEntries distinct_keys_ownEntries)

lemma assign_map_of: "map_of (assign obj k v) = (map_of obj)(k \<mapsto> v)"
  by (induction obj) (auto simp: fun_eq_iff)

lemma foldl_assign_map_of:
  "map_of (foldl (\<lambda>obj b. assign obj (keyOf b) (sanitize b)) acc bs)
     = foldl (\<lambda>m b. m(keyOf b \<mapsto> sanitize b)) (map_of acc) bs"
  by (induction bs arbitrary: acc) (simp_all add: assign_map_of)

lemma foldl_update_last:
  "foldl (\<lambda>m b. m(keyOf b \<mapsto> sanitize b)) Map.empty bs k
     = map_option sanitize (find (\<lambda>b. keyOf b = k) (rev bs))"
  by (induction bs rule: rev_induct) simp_all

lemma map_of_ownEntries:
  assumes "distinct (map fst obj)"
  shows "map_of (ownEntries obj) = map_of obj"
  using assms distinct_keys_ownEntries [OF assms]
  by (simp add: map_of_inject_set set_ownEntries)

lemma bookingsObj_map_of:
  "map_of (bookingsObj bs) k = map_option sanitize (find (\<lambda>b. keyOf b = k) (rev bs))"
proof -
  have "distinct (map fst (foldl (\<lambda>obj b. assign obj (keyOf b) (sanitize b)) [] bs))"
    using foldl_assign_distinct [of "[]" bs] by simp
  then have "map_of (bookingsObj bs) = map_of (foldl (\<lambda>obj b. assign obj (keyOf b) (sanitize b)) [] bs)"
    unfolding bookingsObj_def by (rule map_of_ownEntries)
  then show ?thesis
    using foldl_assign_map_of [of "[]" bs] foldl_update_last [of bs k] by simp
qed

lemma bookingsObj_integer_ids:
  "map fst (bookingsObj [mkBooking ''10'' ''pending'' 1000, mkBooking ''b7'' ''pending'' 2000,
                         mkBooking ''9'' ''pending'' 3000]) = [''9'', ''10'', ''b7'']"
  by (simp add: bookingsObj_def mkBooking_def keyOf_def ownEntries_def isArrayIndex_def isDigit_def
      digitsValue_def)

lemma saveBookings_flag:
  "firebaseWriteDenied (snd (saveBookings st bs rs))
     = (firebaseWriteDenied st \<or> (\<exists>e. fst (saveBookings st bs rs) = Inl e \<and> isPermissionError e))"
  by (auto simp: saveBookings_def called_def write_catch_def invalidate_def Let_def Error_def
      isPermissionError_def toLowerCase_def toLowerChar_def split: option.splits)

lemma saveBookings_no_db:
  "\<not> firebaseDatabase st \<Longrightarrow>
   fst (saveBookings st bs rs) = Inl (Error ''Firebase Database not initialized'')
   \<and> newCalls st (snd (saveBookings st bs rs)) = []"
  by (simp add: saveBookings_def write_catch_def newCalls_def)

lemma saveBookings_children_ok:
  "firebaseDatabase st \<Longrightarrow> allChildrenResolve rs (bookingsObj bs) \<Longrightarrow>
   fst (saveBookings st bs rs) = Inr ()
   \<and> newCalls st (snd (saveBookings st bs rs)) = childWrites (bookingsObj bs)
   \<and> bookingsCache (snd (saveBookings st bs rs)) = None"
  by (simp add: saveBookings_def allChildrenResolve_def childWrites_def called_def invalidate_def
      newCalls_def Let_def)

lemma saveBookings_root_ok:
  "firebaseDatabase st \<Longrightarrow> \<not> allChildrenResolve rs (bookingsObj bs) \<Longrightarrow> rs ''bookings'' = None \<Longrightarrow>
   fst (saveBookings st bs rs) = Inr ()
   \<and> newCalls st (snd (saveBookings st bs rs)) = childWrites (bookingsObj bs) @ [SetRoot (bookingsObj bs)]"
  by (simp add: saveBookings_def allChildrenResolve_def childWrites_def called_def invalidate_def
      newCalls_def Let_def)

lemma saveBookings_root_fails:
  "firebaseDatabase st \<Longrightarrow> \<not> allChildrenResolve rs (bookingsObj bs) \<Longrightarrow> rs ''bookings'' = Some e \<Longrightarrow>
   fst (saveBookings st bs rs) = Inl e
   \<and> newCalls st (snd (saveBookings st bs rs)) = childWrites (bookingsObj bs) @ [SetRoot (bookingsObj bs)]
   \<and> (isPermissionError e \<longrightarrow> firebaseWriteDenied (snd (saveBookings st bs rs)))"
  by (simp add: saveBookings_def allChildrenResolve_def childWrites_def called_def write_catch_def
      newCalls_def Let_def)

lemma saveBookings_localStorage:
  "localStorage (snd (saveBookings st bs rs)) = localStorage st"
  by (simp add: saveBookings_def called_def write_catch_def invalidate_def Let_def split: option.splits)

lemma saveBookings_raised_permission:
  "fst (saveBookings st bs rs) = Inl e \<Longrightarrow> isPermissionError e \<Longrightarrow>
   firebaseWriteDenied (snd (saveBookings st bs rs))"
  by (auto simp: saveBookings_def called_def write_catch_def invalidate_def Let_def
      split: option.splits if_splits)

text \<open>
  C4 (as amended). \<open>saveBookings\<close> issues one child write \<open>bookings/id\<close> per booking
  id (the ids written are exactly those of the bookings passed, each once, carrying the
  sanitised last booking of that id), all of them whatever the others return, and no
  write of the whole \<open>bookings\<close> node when they all resolve. Only when some child write
  is rejected does it write the whole node, once: when that write resolves the call
  returns normally, and when it is rejected too, its error is raised to the caller.
  \<open>window.firebaseWriteDenied\<close> becomes set exactly when the error raised is a
  permission error, and on no path is localStorage written.
\<close>

theorem saveBookings_per_child_then_root:
  "(\<not> firebaseDatabase st \<longrightarrow>
      fst (saveBookings st bs rs) = Inl (Error ''Firebase Database not initialized'')
      \<and> newCalls st (snd (saveBookings st bs rs)) = [])
   \<and> (firebaseDatabase st \<and> allChildrenResolve rs (bookingsObj bs) \<longrightarrow>
      fst (saveBookings st bs rs) = Inr ()
      \<and> newCalls st (snd (saveBookings st bs rs)) = childWrites (bookingsObj bs))
   \<and> (firebaseDatabase st \<and> \<not> allChildrenResolve rs (bookingsObj bs) \<longrightarrow>
      newCalls st (snd (saveBookings st bs rs)) = childWrites (bookingsObj bs) @ [SetRoot (bookingsObj bs)]
      \<and> (case rs ''bookings'' of
            None \<Rightarrow> fst (saveBookings st bs rs) = Inr ()
          | Some e \<Rightarrow> fst (saveBookings st bs rs) = Inl e))
   \<and> (\<forall>e. fst (saveBookings st bs rs) = Inl e \<and> isPermissionError e \<longrightarrow>
          firebaseWriteDenied (snd (saveBookings st bs rs)))
   \<and> firebaseWriteDenied (snd (saveBookings st bs rs))
       = (firebaseWriteDenied st \<or> (\<exists>e. fst (saveBookings st bs rs) = Inl e \<and> isPermissionError e))
   \<and> localStorage (snd (saveBookings st bs rs)) = localStorage st
   \<and> fst ` set (bookingsObj bs) = keyOf ` set bs
   \<and> distinct (map fst (bookingsObj bs))
   \<and> (\<forall>k. map_of (bookingsObj bs) k = map_option sanitize (find (\<lambda>b. keyOf b = k) (rev bs)))"
proof -
  have "firebaseDatabase st \<and> \<not> allChildrenResolve rs (bookingsObj bs) \<longrightarrow>
      newCalls st (snd (saveBookings st bs rs)) = childWrites (bookingsObj bs) @ [SetRoot (bookingsObj bs)]
      \<and> (case rs ''bookings'' of
            None \<Rightarrow> fst (saveBookings st bs rs) = Inr ()
          | Some e \<Rightarrow> fst (saveBookings st bs rs) = Inl e)"
    using saveBookings_root_ok [of st rs bs] saveBookings_root_fails [of st rs bs]
    by (cases "rs ''bookings''") auto
  then show ?thesis
    using saveBookings_no_db [of st bs rs] saveBookings_children_ok [of st rs bs]
      saveBookings_raised_permission [of st bs rs] saveBookings_localStorage [of st bs rs]
      bookingsObj_keys [of bs] saveBookings_flag [of st bs rs] bookingsObj_map_of [of bs]
    by blast
qed

theorem saveBookings_per_child_then_root_witness:
  "firebaseDatabase onlineState
   \<and> \<not> allChildrenResolve rejectsSecond (bookingsObj twoBookings)
   \<and> newCalls onlineState (snd (saveBookings onlineState twoBookings rejectsSecond))
       = [SetChild ''b1'' (mkBooking ''b1'' ''pending'' 1000),
          SetChild ''b2'' (mkBooking ''b2'' ''pending'' 2000),
          SetRoot [(''b1'', mkBooking ''b1'' ''pending'' 1000), (''b2'', mkBooking ''b2'' ''pending'' 2000)]]
   \<and> fst (saveBookings onlineState twoBookings rejectsSecond) = Inl denied
   \<and> isPermissionError denied
   \<and> firebaseWriteDenied (snd (saveBookings onlineState twoBookings rejectsSecond))
   \<and> localStorage (snd (saveBookings onlineState twoBookings rejectsSecond)) = localStorage onlineState"
proof -
  have o: "bookingsObj twoBookings
            = [(''b1'', mkBooking ''b1'' ''pending'' 1000), (''b2'', mkBooking ''b2'' ''pending'' 2000)]"
    by (simp add: bookingsObj_def twoBookings_def mkBooking_def keyOf_def sanitize_def
        sanitizeTotalPrice_def sanitizeSubtotal_def sanitizeBalanceOnVisit_def
        ownEntries_def isArrayIndex_def isDigit_def)
  have d: "firebaseDatabase onlineState"
    by (simp add: onlineState_def)
  have c: "\<not> allChildrenResolve rejectsSecond (bookingsObj twoBookings)"
    unfolding o by (simp add: allChildrenResolve_def rejectsSecond_def)
  have r: "rejectsSecond ''bookings'' = Some denied"
    by (simp add: rejectsSecond_def)
  have p: "isPermissionError denied"
    by (simp add: isPermissionError_def denied_def)
  note T = saveBookings_per_child_then_root [of onlineState twoBookings rejectsSecond]
  have e: "fst (saveBookings onlineState twoBookings rejectsSecond) = Inl denied"
    using T d c r by simp
  have n: "newCalls onlineState (snd (saveBookings onlineState twoBookings rejectsSecond))
             = childWrites (bookingsObj twoBookings) @ [SetRoot (bookingsObj twoBookings)]"
    using T d c by blast
  have f: "firebaseWriteDenied (snd (saveBookings onlineState twoBookings rejectsSecond))"
    using T e p by blast
  have l: "localStorage (snd (saveBookings onlineState twoBookings rejectsSecond)) = localStorage onlineState"
    using T by blast
  show ?thesis
    using d c e p f l n unfolding o by (simp add: childWrites_def)
qed

text \<open>
  C4 as stated fails: with the child write of \<open>b2\<close> rejected for lack of permission
  and the write of the whole node resolving, \<open>saveBookings\<close> returns normally and
  \<open>window.firebaseWriteDenied\<close> stays unset.
\<close>

theorem saveBookings_child_denied_root_resolves:
  "rejectsChildOnly ''bookings/b2'' = Some denied
   \<and> isPermissionError denied
   \<and> fst (saveBookings onlineState twoBookings rejectsChildOnly) = Inr ()
   \<and> \<not> firebaseWriteDenied (snd (saveBookings onlineState twoBookings rejectsChildOnly))
   \<and> newCalls onlineState (snd (saveBookings onlineState twoBookings rejectsChildOnly))
       = [SetChild ''b1'' (mkBooking ''b1'' ''pending'' 1000),
          SetChild ''b2'' (mkBooking ''b2'' ''pending'' 2000),
          SetRoot [(''b1'', mkBooking ''b1'' ''pending'' 1000), (''b2'', mkBooking ''b2'' ''pending'' 2000)]]"
proof -
  have o: "bookingsObj twoBookings
            = [(''b1'', mkBooking ''b1'' ''pending'' 1000), (''b2'', mkBooking ''b2'' ''pending'' 2000)]"
    by (simp add: bookingsObj_def twoBookings_def mkBooking_def keyOf_def sanitize_def
        sanitizeTotalPrice_def sanitizeSubtotal_def sanitizeBalanceOnVisit_def
        ownEntries_def isArrayIndex_def isDigit_def)
  have p: "isPermissionError denied"
    by (simp add: isPermissionError_def denied_def)
  show ?thesis
    using p unfolding saveBookings_def o
    by (simp add: rejectsChildOnly_def onlineState_def called_def invalidate_def newCalls_def Let_def)
qed

section \<open>Properties of updateBooking and the bookings cache\<close>

lemma updateBooking_success:
  assumes "updateBooking st b rs = (Inr b', st1)"
  shows "b' = sanitize b"
    and "st1 = (invalidate (called st [SetChild (keyOf (sanitize b)) (sanitize b)]))
                 \<lparr>dispatched := dispatched st @ [(''booking:updated'', sanitize b)]\<rparr>"
    and "firebaseDatabase st"
  using assms
  by (auto simp: updateBooking_def write_catch_def Let_def called_def split: if_splits option.splits)

lemma updateBooking_success_fields:
  assumes "updateBooking st b rs = (Inr b', st1)"
  shows "bookingsCache st1 = None" "bookingsCacheTime st1 = 0" "firebaseDatabase st1"
    "bookingsPermissionDenied st1 = bookingsPermissionDenied st" "localStorage st1 = localStorage st"
  using updateBooking_success [OF assms]
  by (simp_all add: invalidate_def called_def)

lemma getBookings_latched:
  "bookingsPermissionDenied st \<Longrightarrow>
   getBookings br st now remote = (parseOr (localStorage st ''bookings'') (Bookings []), st)"
  by (simp add: getBookings_def)

lemma getBookings_goes_remote:
  assumes "\<not> bookingsPermissionDenied st" "\<not> bookingsCacheFresh st now" "firebaseDatabase st"
  shows "newCalls st (snd (getBookings br st now remote)) = [Get ''bookings'']"
proof (cases remote)
  case (Fails e)
  with assms show ?thesis
    by (simp add: getBookings_def getBookings_catch_def Let_def called_def newCalls_def
        split: option.splits sum.splits)
next
  case (Snapshot d)
  with assms show ?thesis
    by (cases d) (simp_all add: getBookings_def Let_def called_def newCalls_def)
qed

lemma getBookings_snapshot:
  assumes "\<not> bookingsPermissionDenied st" "\<not> bookingsCacheFresh st now" "firebaseDatabase st"
  shows "fst (getBookings br st now (Snapshot (Some bookingsData))) = Inr (Bookings (map withKey bookingsData))"
  using assms by (simp add: getBookings_def Let_def)

text \<open>
  C3 (as amended). After a successful \<open>updateBooking\<close> the bookings cache is \<open>null\<close> and
  its time is 0, so the next \<open>getBookings\<close> cannot answer from the in-memory cache,
  whatever the time: unless the read-permission flag is latched it calls the database
  (and returns the snapshot's bookings when there is one); when the flag is latched it
  makes no call and returns the copy parsed from localStorage.
\<close>

theorem updateBooking_invalidates_cache:
  assumes "updateBooking st b rs = (Inr b', st1)"
  shows "bookingsCache st1 = None \<and> bookingsCacheTime st1 = 0
    \<and> (\<not> bookingsPermissionDenied st1 \<longrightarrow>
         newCalls st1 (snd (getBookings br st1 now remote)) = [Get ''bookings'']
         \<and> (\<forall>bookingsData. remote = Snapshot (Some bookingsData) \<longrightarrow>
               fst (getBookings br st1 now remote) = Inr (Bookings (map withKey bookingsData))))
    \<and> (bookingsPermissionDenied st1 \<longrightarrow>
         newCalls st1 (snd (getBookings br st1 now remote)) = []
         \<and> fst (getBookings br st1 now remote) = parseOr (localStorage st1 ''bookings'') (Bookings []))"
proof -
  note f = updateBooking_success_fields [OF assms]
  have nf: "\<not> bookingsCacheFresh st1 now"
    by (simp add: bookingsCacheFresh_def f)
  have r: "\<not> bookingsPermissionDenied st1 \<Longrightarrow>
         newCalls st1 (snd (getBookings br st1 now remote)) = [Get ''bookings'']"
    using getBookings_goes_remote [of st1 now br remote] nf f(3) by simp
  have s: "\<not> bookingsPermissionDenied st1 \<Longrightarrow> remote = Snapshot (Some bookingsData) \<Longrightarrow>
               fst (getBookings br st1 now remote) = Inr (Bookings (map withKey bookingsData))" for bookingsData
    using getBookings_snapshot [of st1 now br bookingsData] nf f(3) by simp
  have l: "bookingsPermissionDenied st1 \<Longrightarrow>
         newCalls st1 (snd (getBookings br st1 now remote)) = []
         \<and> fst (getBookings br st1 now remote) = parseOr (localStorage st1 ''bookings'') (Bookings [])"
    by (simp add: getBookings_latched newCalls_def)
  show ?thesis
    using f(1,2) r s l by blast
qed

lemma updateBooking_edited:
  "firebaseDatabase st \<Longrightarrow>
   updateBooking st editedBooking resolves
     = (Inr editedBooking,
        (invalidate (called st [SetChild ''b1'' editedBooking]))
          \<lparr>dispatched := dispatched st @ [(''booking:updated'', editedBooking)]\<rparr>)"
  by (simp add: updateBooking_def resolves_def missingId_def keyOf_def editedBooking_def mkBooking_def
      sanitize_def sanitizeTotalPrice_def sanitizeSubtotal_def sanitizeBalanceOnVisit_def Let_def called_def)

theorem updateBooking_invalidates_cache_witness:
  "fst (updateBooking cachedState editedBooking resolves) = Inr editedBooking
   \<and> bookingsCacheFresh cachedState 2000
   \<and> bookingsCache (snd (updateBooking cachedState editedBooking resolves)) = None
   \<and> \<not> bookingsPermissionDenied (snd (updateBooking cachedState editedBooking resolves))
   \<and> newCalls (snd (updateBooking cachedState editedBooking resolves))
        (snd (getBookings accepting (snd (updateBooking cachedState editedBooking resolves)) 2000 freshSnapshot))
       = [Get ''bookings'']
   \<and> fst (getBookings accepting (snd (updateBooking cachedState editedBooking resolves)) 2000 freshSnapshot)
       = Inr (Bookings [editedBooking])"
proof -
  have d: "firebaseDatabase cachedState"
    by (simp add: cachedState_def onlineState_def)
  obtain st1 where u: "updateBooking cachedState editedBooking resolves = (Inr editedBooking, st1)"
    using updateBooking_edited [OF d] by simp
  have p: "\<not> bookingsPermissionDenied st1"
    using updateBooking_success_fields(4) [OF u] by (simp add: cachedState_def onlineState_def)
  have w: "map withKey [(''b1'', editedBooking)] = [editedBooking]"
    by (simp add: withKey_def editedBooking_def mkBooking_def)
  have c: "bookingsCacheFresh cachedState 2000"
    by (simp add: bookingsCacheFresh_def cachedState_def BOOKINGS_CACHE_DURATION_def)
  show ?thesis
    using updateBooking_invalidates_cache [OF u, of accepting 2000 freshSnapshot] u p w c
    by (simp add: freshSnapshot_def)
qed

text \<open>
  C3 as stated fails when \<open>bookingsPermissionDenied\<close> is latched: after a successful
  update the next \<open>getBookings\<close> makes no call to the database and returns the list
  persisted in localStorage, here the very list that was cached before the update.
\<close>

theorem updateBooking_then_latched_read:
  "fst (updateBooking latchedState editedBooking resolves) = Inr editedBooking
   \<and> bookingsCache latchedState = Some [mkBooking ''b1'' ''pending'' 1000]
   \<and> bookingsCache (snd (updateBooking latchedState editedBooking resolves)) = None
   \<and> newCalls (snd (updateBooking latchedState editedBooking resolves))
        (snd (getBookings accepting (snd (updateBooking latchedState editedBooking resolves)) 2000 freshSnapshot))
       = []
   \<and> fst (getBookings accepting (snd (updateBooking latchedState editedBooking resolves)) 2000 freshSnapshot)
       = Inr (Bookings [mkBooking ''b1'' ''pending'' 1000])"
proof -
  have d: "firebaseDatabase latchedState"
    by (simp add: latchedState_def cachedState_def onlineState_def)
  have u: "updateBooking latchedState editedBooking resolves
     = (Inr editedBooking,
        (invalidate (called latchedState [SetChild ''b1'' editedBooking]))
          \<lparr>dispatched := dispatched latchedState @ [(''booking:updated'', editedBooking)]\<rparr>)"
    by (rule updateBooking_edited [OF d])
  show ?thesis
    unfolding u
    by (simp add: getBookings_def invalidate_def called_def newCalls_def latchedState_def
        cachedState_def parseOr_def)
qed

section \<open>Properties of the permission flags\<close>

lemma getBookings_fails:
  assumes "\<not> bookingsPermissionDenied st" "\<not> bookingsCacheFresh st now" "firebaseDatabase st"
  shows "bookingsPermissionDenied (snd (getBookings br st now (Fails e))) = saysPermissionDenied e"
    and "bookingsCache (snd (getBookings br st now (Fails e))) = bookingsCache st"
    and "bookingsCacheTime (snd (getBookings br st now (Fails e))) = bookingsCacheTime st"
    and "firebaseDatabase (snd (getBookings br st now (Fails e)))"
  using assms
  by (simp_all add: getBookings_def getBookings_catch_def Let_def called_def split: option.splits)

lemma bookingsCacheFresh_later:
  "\<not> bookingsCacheFresh st now \<Longrightarrow> now \<le> now2 \<Longrightarrow> bookingsCache st' = bookingsCache st \<Longrightarrow>
   bookingsCacheTime st' = bookingsCacheTime st \<Longrightarrow> \<not> bookingsCacheFresh st' now2"
  by (auto simp: bookingsCacheFresh_def split: option.splits)

lemma getBookings_transient_retry:
  assumes "\<not> bookingsPermissionDenied st" "\<not> bookingsCacheFresh st now" "firebaseDatabase st"
    and "\<not> saysPermissionDenied e" "now \<le> now2"
  shows "newCalls (snd (getBookings br st now (Fails e)))
           (snd (getBookings br (snd (getBookings br st now (Fails e))) now2 remote)) = [Get ''bookings'']"
proof -
  let ?st' = "snd (getBookings br st now (Fails e))"
  note f = getBookings_fails [OF assms(1-3), of br e]
  have "\<not> bookingsCacheFresh ?st' now2"
    using bookingsCacheFresh_later [OF assms(2) assms(5) f(2) f(3)] .
  then show ?thesis
    using getBookings_goes_remote [of ?st' now2 br remote] f(1) f(4) assms(4) by simp
qed

lemma getUsers_latched:
  "usersPermissionDenied st \<Longrightarrow>
   getUsers st now impl remote fs = (parseOr (localStorage st ''users'') (Users []), st)"
  by (simp add: getUsers_def)

lemma getUsers_reaches_realtime:
  assumes "\<not> usersPermissionDenied st" "\<not> usersCacheFresh st now" "implFails impl"
  shows "getUsers st now impl remote fs = getUsers_realtime st now remote fs"
  using assms by (auto simp: getUsers_def implFails_def split: option.splits sum.splits)

lemma getUsers_fallback_state: "snd (getUsers_fallback st fs) = st"
  by (simp add: getUsers_fallback_def split: option.splits sum.splits stored.splits jsvalue.splits)

lemma getUsers_realtime_calls:
  "firebaseDatabase st \<Longrightarrow> newCalls st (snd (getUsers_realtime st now remote fs)) = [Get ''users'']"
proof (cases remote)
  case (Fails e)
  assume "firebaseDatabase st"
  with Fails show ?thesis
    by (simp add: getUsers_realtime_def Let_def called_def newCalls_def getUsers_fallback_state
        split: sum.splits)
next
  case (Snapshot d)
  assume "firebaseDatabase st"
  with Snapshot show ?thesis
    by (cases d) (simp_all add: getUsers_realtime_def Let_def called_def newCalls_def)
qed

lemma getUsers_realtime_fails:
  assumes "firebaseDatabase st" "\<not> usersPermissionDenied st"
  shows "usersPermissionDenied (snd (getUsers_realtime st now (Fails e) fs)) = isPermissionError e"
    and "\<not> isPermissionError e \<Longrightarrow> snd (getUsers_realtime st now (Fails e) fs) = called st [Get ''users'']"
  using assms
  by (simp_all add: getUsers_realtime_def Let_def called_def getUsers_fallback_state split: sum.splits)

lemma usersCacheFresh_later:
  "\<not> usersCacheFresh st now \<Longrightarrow> now \<le> now2 \<Longrightarrow> \<not> usersCacheFresh (called st cs) now2"
  by (auto simp: usersCacheFresh_def called_def split: option.splits)

lemma getUsers_fails:
  assumes "\<not> usersPermissionDenied st" "\<not> usersCacheFresh st now" "implFails impl" "firebaseDatabase st"
  shows "usersPermissionDenied (snd (getUsers st now impl (Fails e) fs)) = isPermissionError e"
  using assms getUsers_realtime_fails(1) [of st now e fs]
  by (simp add: getUsers_reaches_realtime)

lemma getUsers_transient_retry:
  assumes "\<not> usersPermissionDenied st" "\<not> usersCacheFresh st now" "implFails impl" "firebaseDatabase st"
    and "\<not> isPermissionError e" "now \<le> now2" "implFails impl2"
  shows "newCalls (snd (getUsers st now impl (Fails e) fs))
           (snd (getUsers (snd (getUsers st now impl (Fails e) fs)) now2 impl2 remote fs2)) = [Get ''users'']"
proof -
  let ?st' = "called st [Get ''users'']"
  have s: "snd (getUsers st now impl (Fails e) fs) = ?st'"
    using assms getUsers_realtime_fails(2) [of st e now fs] by (simp add: getUsers_reaches_realtime)
  have "getUsers ?st' now2 impl2 remote fs2 = getUsers_realtime ?st' now2 remote fs2"
    using assms usersCacheFresh_later [of st now now2]
    by (intro getUsers_reaches_realtime) (simp_all add: called_def)
  then show ?thesis
    unfolding s using getUsers_realtime_calls [of ?st' now2 remote fs2] assms(4)
    by (simp add: called_def)
qed

lemma localGroomersOrDefault_nonempty: "localGroomersOrDefault st \<noteq> Inr []"
  by (auto simp: localGroomersOrDefault_def DEFAULT_GROOMERS_def
      split: option.splits stored.splits jsvalue.splits)

lemma localGroomersOrDefault_cong:
  "localStorage st' = localStorage st \<Longrightarrow> localGroomersOrDefault st' = localGroomersOrDefault st"
  by (simp add: localGroomersOrDefault_def)

lemma localGroomersOrDefault_parses:
  "localStorage st ''groomers'' \<noteq> Some Garbled \<Longrightarrow> \<exists>gs. localGroomersOrDefault st = Inr gs \<and> gs \<noteq> []"
  by (auto simp: localGroomersOrDefault_def DEFAULT_GROOMERS_def
      split: option.splits stored.splits jsvalue.splits)

lemma getGroomers_latched:
  "groomersPermissionDenied st \<Longrightarrow> getGroomers br st now remote = (localGroomersOrDefault st, st)"
  by (simp add: getGroomers_def)

lemma getGroomers_catch_calls: "remoteCalls (snd (getGroomers_catch st now e)) = remoteCalls st"
  by (simp add: getGroomers_catch_def Let_def split: sum.splits)

lemma getGroomers_goes_remote:
  assumes "\<not> groomersPermissionDenied st" "\<not> groomersCacheFresh st now" "firebaseDatabase st"
  shows "newCalls st (snd (getGroomers br st now remote)) = [Get ''groomers'']"
proof (cases remote)
  case (Fails e)
  with assms show ?thesis
    by (simp add: getGroomers_def Let_def getGroomers_catch_calls newCalls_def called_def)
next
  case (Snapshot d)
  show ?thesis
  proof (cases d)
    case None
    with Snapshot assms show ?thesis
      by (simp add: getGroomers_def Let_def newCalls_def called_def)
  next
    case (Some groomersData)
    with Snapshot assms show ?thesis
      by (simp add: getGroomers_def Let_def getGroomers_catch_calls newCalls_def called_def
          split: prod.splits writeOutcome.splits)
  qed
qed

lemma localGroomersOrDefault_upd:
  "localGroomersOrDefault (st\<lparr>groomersPermissionDenied := b\<rparr>) = localGroomersOrDefault st"
  "localGroomersOrDefault (called st cs) = localGroomersOrDefault st"
  by (simp_all add: localGroomersOrDefault_def called_def)

lemma getGroomers_catch_fields:
  "groomersPermissionDenied (snd (getGroomers_catch st now e))
     = (groomersPermissionDenied st \<or> saysPermissionDenied e)"
  "firebaseDatabase (snd (getGroomers_catch st now e)) = firebaseDatabase st"
  "localGroomersOrDefault st = Inr gs \<Longrightarrow>
     fst (getGroomers_catch st now e) = Inr gs
     \<and> groomersCache (snd (getGroomers_catch st now e)) = Some gs
     \<and> groomersCacheTime (snd (getGroomers_catch st now e)) = now"
  by (cases "localGroomersOrDefault st"; cases "saysPermissionDenied e";
      simp add: getGroomers_catch_def Let_def localGroomersOrDefault_upd)+

lemma getGroomers_fails:
  assumes "\<not> groomersPermissionDenied st" "\<not> groomersCacheFresh st now" "firebaseDatabase st"
  shows "groomersPermissionDenied (snd (getGroomers br st now (Fails e))) = saysPermissionDenied e"
    and "firebaseDatabase (snd (getGroomers br st now (Fails e)))"
    and "localGroomersOrDefault st = Inr gs \<Longrightarrow>
         fst (getGroomers br st now (Fails e)) = Inr gs
         \<and> groomersCache (snd (getGroomers br st now (Fails e))) = Some gs
         \<and> groomersCacheTime (snd (getGroomers br st now (Fails e))) = now"
proof -
  let ?st1 = "called st [Get ''groomers'']"
  have g: "getGroomers br st now (Fails e) = getGroomers_catch ?st1 now e"
    using assms by (simp add: getGroomers_def Let_def)
  show "groomersPermissionDenied (snd (getGroomers br st now (Fails e))) = saysPermissionDenied e"
    using assms(1) unfolding g by (simp add: getGroomers_catch_fields(1) called_def)
  show "firebaseDatabase (snd (getGroomers br st now (Fails e)))"
    using assms(3) unfolding g by (simp add: getGroomers_catch_fields(2) called_def)
  show "localGroomersOrDefault st = Inr gs \<Longrightarrow>
         fst (getGroomers br st now (Fails e)) = Inr gs
         \<and> groomersCache (snd (getGroomers br st now (Fails e))) = Some gs
         \<and> groomersCacheTime (snd (getGroomers br st now (Fails e))) = now"
    unfolding g using getGroomers_catch_fields(3) [of ?st1 gs now e]
    by (simp add: localGroomersOrDefault_upd)
qed

lemma getGroomers_transient_cached:
  assumes "\<not> groomersPermissionDenied st" "\<not> groomersCacheFresh st now" "firebaseDatabase st"
    and "\<not> saysPermissionDenied e" "localStorage st ''groomers'' \<noteq> Some Garbled"
  shows "(now2 - now < 60000 \<longrightarrow>
            newCalls (snd (getGroomers br st now (Fails e)))
              (snd (getGroomers br (snd (getGroomers br st now (Fails e))) now2 remote)) = []
            \<and> fst (getGroomers br (snd (getGroomers br st now (Fails e))) now2 remote)
                = fst (getGroomers br st now (Fails e)))
       \<and> (\<not> now2 - now < 60000 \<longrightarrow>
            newCalls (snd (getGroomers br st now (Fails e)))
              (snd (getGroomers br (snd (getGroomers br st now (Fails e))) now2 remote)) = [Get ''groomers''])"
proof -
  let ?st' = "snd (getGroomers br st now (Fails e))"
  obtain gs where gs: "localGroomersOrDefault st = Inr gs" "gs \<noteq> []"
    using localGroomersOrDefault_parses [OF assms(5)] by blast
  note f = getGroomers_fails [OF assms(1-3), where br = br and e = e]
  have p: "\<not> groomersPermissionDenied ?st'"
    using f(1) assms(4) by simp
  have c: "groomersCacheFresh ?st' now2 = (now2 - now < 60000)"
    using f(3) [OF gs(1)] gs(2) by (simp add: groomersCacheFresh_def GROOMERS_CACHE_DURATION_def)
  have near: "now2 - now < 60000 \<Longrightarrow> getGroomers br ?st' now2 remote = (Inr gs, ?st')"
    using p c f(3) [OF gs(1)] by (simp add: getGroomers_def)
  have far: "\<not> now2 - now < 60000 \<Longrightarrow>
      newCalls ?st' (snd (getGroomers br ?st' now2 remote)) = [Get ''groomers'']"
    using getGroomers_goes_remote [of ?st' now2 br remote] p c f(2) by simp
  show ?thesis
    using near far f(3) [OF gs(1)] by (simp add: newCalls_def)
qed

text \<open>
  C5 (as amended). Once its permission flag is set, each of \<open>getBookings\<close>, \<open>getUsers\<close>
  and \<open>getGroomers\<close> makes no call to the database, leaves the state (and so the flag)
  as it is, and returns the copy parsed from localStorage (the default groomers when
  there is none). A call that reaches the database and is rejected sets the flag exactly
  when the error is recognised as a permission denial (by \<open>saysPermissionDenied\<close> for
  bookings and groomers, by \<open>isPermissionError\<close> for users). After any other rejection
  the flag stays clear; the next call of \<open>getBookings\<close> or \<open>getUsers\<close> (no external
  implementation answering) calls the database again, whereas \<open>getGroomers\<close> has cached
  its fallback result and calls the database again only from 60 seconds later on.
\<close>

theorem permission_flags_latch:
  "(bookingsPermissionDenied st \<longrightarrow>
      getBookings br st now rb = (parseOr (localStorage st ''bookings'') (Bookings []), st))
   \<and> (usersPermissionDenied st \<longrightarrow>
      getUsers st now impl ru fs = (parseOr (localStorage st ''users'') (Users []), st))
   \<and> (groomersPermissionDenied st \<longrightarrow>
      getGroomers br st now rg = (localGroomersOrDefault st, st))
   \<and> (\<not> bookingsPermissionDenied st \<and> \<not> bookingsCacheFresh st now \<and> firebaseDatabase st \<longrightarrow>
      bookingsPermissionDenied (snd (getBookings br st now (Fails e))) = saysPermissionDenied e
      \<and> (\<not> saysPermissionDenied e \<and> now \<le> now2 \<longrightarrow>
           newCalls (snd (getBookings br st now (Fails e)))
             (snd (getBookings br (snd (getBookings br st now (Fails e))) now2 rb)) = [Get ''bookings'']))
   \<and> (\<not> usersPermissionDenied st \<and> \<not> usersCacheFresh st now \<and> implFails impl \<and> firebaseDatabase st \<longrightarrow>
      usersPermissionDenied (snd (getUsers st now impl (Fails e) fs)) = isPermissionError e
      \<and> (\<not> isPermissionError e \<and> now \<le> now2 \<and> implFails impl2 \<longrightarrow>
           newCalls (snd (getUsers st now impl (Fails e) fs))
             (snd (getUsers (snd (getUsers st now impl (Fails e) fs)) now2 impl2 ru fs2)) = [Get ''users'']))
   \<and> (\<not> groomersPermissionDenied st \<and> \<not> groomersCacheFresh st now \<and> firebaseDatabase st \<longrightarrow>
      groomersPermissionDenied (snd (getGroomers br st now (Fails e))) = saysPermissionDenied e
      \<and> (\<not> saysPermissionDenied e \<and> localStorage st ''groomers'' \<noteq> Some Garbled \<longrightarrow>
           (now2 - now < 60000 \<longrightarrow>
              newCalls (snd (getGroomers br st now (Fails e)))
                (snd (getGroomers br (snd (getGroomers br st now (Fails e))) now2 rg)) = []
              \<and> fst (getGroomers br (snd (getGroomers br st now (Fails e))) now2 rg)
                  = fst (getGroomers br st now (Fails e)))
         \<and> (\<not> now2 - now < 60000 \<longrightarrow>
              newCalls (snd (getGroomers br st now (Fails e)))
                (snd (getGroomers br (snd (getGroomers br st now (Fails e))) now2 rg)) = [Get ''groomers''])))"
proof (intro conjI impI)
  assume "bookingsPermissionDenied st"
  then show "getBookings br st now rb = (parseOr (localStorage st ''bookings'') (Bookings []), st)"
    by (rule getBookings_latched)
next
  assume "usersPermissionDenied st"
  then show "getUsers st now impl ru fs = (parseOr (localStorage st ''users'') (Users []), st)"
    by (rule getUsers_latched)
next
  assume "groomersPermissionDenied st"
  then show "getGroomers br st now rg = (localGroomersOrDefault st, st)"
    by (rule getGroomers_latched)
next
  assume "\<not> bookingsPermissionDenied st \<and> \<not> bookingsCacheFresh st now \<and> firebaseDatabase st"
  then show "bookingsPermissionDenied (snd (getBookings br st now (Fails e))) = saysPermissionDenied e"
    using getBookings_fails(1) by blast
next
  assume "\<not> bookingsPermissionDenied st \<and> \<not> bookingsCacheFresh st now \<and> firebaseDatabase st"
    and "\<not> saysPermissionDenied e \<and> now \<le> now2"
  then show "newCalls (snd (getBookings br st now (Fails e)))
             (snd (getBookings br (snd (getBookings br st now (Fails e))) now2 rb)) = [Get ''bookings'']"
    using getBookings_transient_retry by blast
next
  assume "\<not> usersPermissionDenied st \<and> \<not> usersCacheFresh st now \<and> implFails impl \<and> firebaseDatabase st"
  then show "usersPermissionDenied (snd (getUsers st now impl (Fails e) fs)) = isPermissionError e"
    using getUsers_fails by blast
next
  assume "\<not> usersPermissionDenied st \<and> \<not> usersCacheFresh st now \<and> implFails impl \<and> firebaseDatabase st"
    and "\<not> isPermissionError e \<and> now \<le> now2 \<and> implFails impl2"
  then show "newCalls (snd (getUsers st now impl (Fails e) fs))
             (snd (getUsers (snd (getUsers st now impl (Fails e) fs)) now2 impl2 ru fs2)) = [Get ''users'']"
    using getUsers_transient_retry by blast
next
  assume "\<not> groomersPermissionDenied st \<and> \<not> groomersCacheFresh st now \<and> firebaseDatabase st"
  then show "groomersPermissionDenied (snd (getGroomers br st now (Fails e))) = saysPermissionDenied e"
    using getGroomers_fails(1) by blast
next
  assume a: "\<not> groomersPermissionDenied st \<and> \<not> groomersCacheFresh st now \<and> firebaseDatabase st"
    "\<not> saysPermissionDenied e \<and> localStorage st ''groomers'' \<noteq> Some Garbled"
  note c = getGroomers_transient_cached [where st = st and now = now and e = e and br = br and ?now2.0 = now2 and remote = rg]
  {
    assume "now2 - now < 60000"
    then show "newCalls (snd (getGroomers br st now (Fails e)))
                (snd (getGroomers br (snd (getGroomers br st now (Fails e))) now2 rg)) = []"
      using a c by blast
  next
    assume "now2 - now < 60000"
    then show "fst (getGroomers br (snd (getGroomers br st now (Fails e))) now2 rg)
                  = fst (getGroomers br st now (Fails e))"
      using a c by blast
  next
    assume "\<not> now2 - now < 60000"
    then show "newCalls (snd (getGroomers br st now (Fails e)))
                (snd (getGroomers br (snd (getGroomers br st now (Fails e))) now2 rg)) = [Get ''groomers'']"
      using a c by blast
  }
qed

lemma example_errors:
  "saysPermissionDenied denied" "isPermissionError denied"
  "\<not> saysPermissionDenied timeout" "\<not> isPermissionError timeout"
  by (simp_all add: saysPermissionDenied_def isPermissionError_def denied_def timeout_def Error_def
      toLowerCase_def toLowerChar_def)

lemma onlineState_fields:
  "\<not> bookingsPermissionDenied onlineState" "\<not> usersPermissionDenied onlineState"
  "\<not> groomersPermissionDenied onlineState" "firebaseDatabase onlineState"
  "\<not> bookingsCacheFresh onlineState now" "\<not> usersCacheFresh onlineState now"
  "\<not> groomersCacheFresh onlineState now" "localStorage onlineState = Map.empty"
  by (simp_all add: onlineState_def bookingsCacheFresh_def usersCacheFresh_def groomersCacheFresh_def)

theorem permission_flags_latch_witness:
  "saysPermissionDenied denied \<and> isPermissionError denied
   \<and> \<not> saysPermissionDenied timeout \<and> \<not> isPermissionError timeout
   \<and> bookingsPermissionDenied (snd (getBookings accepting onlineState 1000 (Fails denied)))
   \<and> getBookings accepting (snd (getBookings accepting onlineState 1000 (Fails denied))) 2000 freshSnapshot
        = (Inr (Bookings []), snd (getBookings accepting onlineState 1000 (Fails denied)))
   \<and> usersPermissionDenied (snd (getUsers onlineState 1000 None (Fails denied) None))
   \<and> groomersPermissionDenied (snd (getGroomers accepting onlineState 1000 (Fails denied)))
   \<and> \<not> bookingsPermissionDenied (snd (getBookings accepting onlineState 1000 (Fails timeout)))
   \<and> newCalls (snd (getBookings accepting onlineState 1000 (Fails timeout)))
        (snd (getBookings accepting (snd (getBookings accepting onlineState 1000 (Fails timeout))) 2000 freshSnapshot))
       = [Get ''bookings'']
   \<and> newCalls (snd (getUsers onlineState 1000 None (Fails timeout) None))
        (snd (getUsers (snd (getUsers onlineState 1000 None (Fails timeout) None)) 2000 None (Snapshot None) None))
       = [Get ''users'']
   \<and> newCalls (snd (getGroomers accepting onlineState 1000 (Fails timeout)))
        (snd (getGroomers accepting (snd (getGroomers accepting onlineState 1000 (Fails timeout))) 61000 (Snapshot None)))
       = [Get ''groomers'']"
proof -
  note o = onlineState_fields
  have i: "implFails None"
    by (simp add: implFails_def)
  note D = permission_flags_latch [where st = onlineState and br = accepting and now = 1000
      and e = denied and impl = None and fs = None]
  have b1: "bookingsPermissionDenied (snd (getBookings accepting onlineState 1000 (Fails denied)))"
    using D o example_errors by blast
  have u1: "usersPermissionDenied (snd (getUsers onlineState 1000 None (Fails denied) None))"
    using D o i example_errors by blast
  have g1: "groomersPermissionDenied (snd (getGroomers accepting onlineState 1000 (Fails denied)))"
    using D o example_errors by blast
  have ls: "localStorage (snd (getBookings accepting onlineState 1000 (Fails denied))) ''bookings'' = None"
    using o by (simp add: getBookings_def getBookings_catch_def Let_def called_def split: option.splits)
  have b2: "getBookings accepting (snd (getBookings accepting onlineState 1000 (Fails denied))) 2000 freshSnapshot
        = (Inr (Bookings []), snd (getBookings accepting onlineState 1000 (Fails denied)))"
    using permission_flags_latch [where st = "snd (getBookings accepting onlineState 1000 (Fails denied))"
        and br = accepting and now = 2000 and rb = freshSnapshot] b1 ls
    by (simp add: parseOr_def)
  note T = permission_flags_latch [where st = onlineState and br = accepting and now = 1000
      and e = timeout and impl = None and fs = None and ?impl2.0 = None and ?fs2.0 = None]
  have b3: "\<not> bookingsPermissionDenied (snd (getBookings accepting onlineState 1000 (Fails timeout)))"
    using T o example_errors by blast
  have b4: "newCalls (snd (getBookings accepting onlineState 1000 (Fails timeout)))
        (snd (getBookings accepting (snd (getBookings accepting onlineState 1000 (Fails timeout))) 2000 freshSnapshot))
       = [Get ''bookings'']"
    using T [where ?now2.0 = 2000 and rb = freshSnapshot] o example_errors by simp
  have u4: "newCalls (snd (getUsers onlineState 1000 None (Fails timeout) None))
        (snd (getUsers (snd (getUsers onlineState 1000 None (Fails timeout) None)) 2000 None (Snapshot None) None))
       = [Get ''users'']"
    using T [where ?now2.0 = 2000 and ru = "Snapshot None"] o i example_errors by simp
  have g4: "newCalls (snd (getGroomers accepting onlineState 1000 (Fails timeout)))
        (snd (getGroomers accepting (snd (getGroomers accepting onlineState 1000 (Fails timeout))) 61000 (Snapshot None)))
       = [Get ''groomers'']"
    using T [where ?now2.0 = 61000 and rg = "Snapshot None"] o example_errors by simp
  show ?thesis
    using example_errors b1 b2 u1 g1 b3 b4 u4 g4 by blast
qed

text \<open>
  C5 as stated fails for \<open>getGroomers\<close>: after a transient failure the flag is clear,
  yet the next call, one second later, makes no call to the database.
\<close>

theorem getGroomers_transient_not_retried:
  "\<not> saysPermissionDenied timeout
   \<and> newCalls onlineState (snd (getGroomers accepting onlineState 1000 (Fails timeout))) = [Get ''groomers'']
   \<and> \<not> groomersPermissionDenied (snd (getGroomers accepting onlineState 1000 (Fails timeout)))
   \<and> newCalls (snd (getGroomers accepting onlineState 1000 (Fails timeout)))
        (snd (getGroomers accepting (snd (getGroomers accepting onlineState 1000 (Fails timeout))) 2000 (Snapshot None)))
       = []"
proof -
  note o = onlineState_fields
  have t: "\<not> saysPermissionDenied timeout"
    by (rule example_errors)
  have a: "newCalls onlineState (snd (getGroomers accepting onlineState 1000 (Fails timeout))) = [Get ''groomers'']"
    using getGroomers_goes_remote [of onlineState 1000 accepting "Fails timeout"] o by simp
  have b: "\<not> groomersPermissionDenied (snd (getGroomers accepting onlineState 1000 (Fails timeout)))"
    using getGroomers_fails(1) [of onlineState 1000 accepting timeout] o t by simp
  have c: "newCalls (snd (getGroomers accepting onlineState 1000 (Fails timeout)))
        (snd (getGroomers accepting (snd (getGroomers accepting onlineState 1000 (Fails timeout))) 2000 (Snapshot None)))
       = []"
    using getGroomers_transient_cached [where st = onlineState and now = 1000 and e = timeout
        and br = accepting and ?now2.0 = 2000 and remote = "Snapshot None"] o t
    by simp
  show ?thesis
    using t a b c by blast
qed

section \<open>Properties of getGroomers\<close>

lemma localGroomersOrDefault_value:
  "localStorage st ''groomers'' \<noteq> Some Garbled \<Longrightarrow>
   localGroomersOrDefault st = Inr (if storedGroomers st = [] then DEFAULT_GROOMERS else storedGroomers st)"
  by (auto simp: localGroomersOrDefault_def storedGroomers_def
      split: option.splits stored.splits jsvalue.splits)

lemma getGroomers_catch_result:
  "fst (getGroomers_catch st now e) = localGroomersOrDefault st"
  by (cases "localGroomersOrDefault st"; cases "saysPermissionDenied e";
      simp add: getGroomers_catch_def Let_def localGroomersOrDefault_upd)

lemma getGroomers_result:
  "fst (getGroomers br st now remote) = localGroomersOrDefault st
   \<or> (groomersCacheFresh st now \<and> fst (getGroomers br st now remote) = Inr (the (groomersCache st)))
   \<or> fst (getGroomers br st now remote) = Inr DEFAULT_GROOMERS
   \<or> (\<exists>d. remote = Snapshot (Some d) \<and> fst (getGroomers br st now remote) = Inr (map withGroomerKey d))"
proof (cases "groomersPermissionDenied st \<or> groomersCacheFresh st now \<or> \<not> firebaseDatabase st")
  case True
  then show ?thesis
    by (auto simp: getGroomers_def getGroomers_catch_result split: sum.splits)
next
  case False
  let ?st1 = "called st [Get ''groomers'']"
  show ?thesis
  proof (cases remote)
    case (Fails e)
    with False show ?thesis
      by (simp add: getGroomers_def Let_def getGroomers_catch_result localGroomersOrDefault_upd)
  next
    case (Snapshot d)
    show ?thesis
    proof (cases d)
      case None
      with Snapshot False show ?thesis
        by (simp add: getGroomers_def Let_def)
    next
      case (Some groomersData)
      have l: "localGroomersOrDefault (?st1\<lparr>groomersCache := c, groomersCacheTime := t\<rparr>)
                = localGroomersOrDefault st" for c t
        by (simp add: localGroomersOrDefault_def called_def)
      from Some Snapshot False show ?thesis
        by (simp add: getGroomers_def Let_def getGroomers_catch_result l
            split: prod.splits writeOutcome.splits)
    qed
  qed
qed

lemma DEFAULT_GROOMERS_three: "length DEFAULT_GROOMERS = 3"
  by (simp add: DEFAULT_GROOMERS_def)

lemma fresh_cache_nonempty: "groomersCacheFresh st now \<Longrightarrow> the (groomersCache st) \<noteq> []"
  by (auto simp: groomersCacheFresh_def split: option.splits)

text \<open>
  What \<open>getGroomers\<close> does guarantee: when an existing snapshot has at least one child,
  no returned list is empty; when the stored text parses, the call returns a list; and
  on the latched path, without a database, without a snapshot value and on a failed
  read it returns the three defaults when no non-empty list is stored.
\<close>

lemma getGroomers_nonempty_when_parsable:
  assumes "remote \<noteq> Snapshot (Some [])"
  shows "fst (getGroomers br st now remote) \<noteq> Inr []
     \<and> (localStorage st ''groomers'' \<noteq> Some Garbled \<longrightarrow>
          (\<exists>gs. fst (getGroomers br st now remote) = Inr gs \<and> gs \<noteq> []))
     \<and> (localStorage st ''groomers'' \<noteq> Some Garbled \<and> storedGroomers st = []
          \<and> (groomersPermissionDenied st
              \<or> \<not> groomersCacheFresh st now
                 \<and> (\<not> firebaseDatabase st \<or> remote = Snapshot None \<or> (\<exists>e. remote = Fails e)))
        \<longrightarrow> fst (getGroomers br st now remote) = Inr DEFAULT_GROOMERS)
     \<and> length DEFAULT_GROOMERS = 3"
proof -
  have d: "DEFAULT_GROOMERS \<noteq> []"
    by (simp add: DEFAULT_GROOMERS_def)
  have s: "remote = Snapshot (Some x) \<Longrightarrow> map withGroomerKey x \<noteq> []" for x
    using assms by auto
  note r = getGroomers_result [of br st now remote]
  have a: "fst (getGroomers br st now remote) \<noteq> Inr []"
    using r localGroomersOrDefault_nonempty [of st] fresh_cache_nonempty [of st now] d s
    by auto
  have b: "localStorage st ''groomers'' \<noteq> Some Garbled \<Longrightarrow>
          \<exists>gs. fst (getGroomers br st now remote) = Inr gs \<and> gs \<noteq> []"
    using r localGroomersOrDefault_parses [of st] fresh_cache_nonempty [of st now] d s
    by auto
  have c: "localStorage st ''groomers'' \<noteq> Some Garbled \<and> storedGroomers st = []
          \<and> (groomersPermissionDenied st
              \<or> \<not> groomersCacheFresh st now
                 \<and> (\<not> firebaseDatabase st \<or> remote = Snapshot None \<or> (\<exists>e. remote = Fails e)))
        \<Longrightarrow> fst (getGroomers br st now remote) = Inr DEFAULT_GROOMERS"
    using localGroomersOrDefault_value [of st]
    by (auto simp: getGroomers_def Let_def getGroomers_catch_result localGroomersOrDefault_upd)
  show ?thesis
    using a b c DEFAULT_GROOMERS_three by blast
qed

lemma getGroomers_defaults_example:
  "Fails timeout \<noteq> (Snapshot (Some []) :: groomer remoteRead)
   \<and> localStorage onlineState ''groomers'' \<noteq> Some Garbled
   \<and> storedGroomers onlineState = []
   \<and> \<not> groomersCacheFresh onlineState 1000
   \<and> fst (getGroomers accepting onlineState 1000 (Fails timeout)) = Inr DEFAULT_GROOMERS
   \<and> fst (getGroomers accepting onlineState 1000 (Fails timeout)) \<noteq> Inr []"
proof -
  have h: "Fails timeout \<noteq> (Snapshot (Some []) :: groomer remoteRead)"
    by simp
  have s: "storedGroomers onlineState = []" "localStorage onlineState ''groomers'' \<noteq> Some Garbled"
    by (simp_all add: storedGroomers_def onlineState_fields)
  show ?thesis
    using getGroomers_nonempty_when_parsable [OF h, of accepting onlineState 1000] h s onlineState_fields(7) [of 1000]
    by blast
qed

text \<open>
  C10 as stated fails on the code: with text under \<open>groomers\<close> that does not parse,
  \<open>getGroomers\<close> throws instead of returning the default groomers, on the failed read
  (the \<open>JSON.parse\<close> in its \<open>catch\<close> block is not guarded), on the latched path and
  without a database. \<open>getBookings\<close> guards the same read in its \<open>catch\<close> block and
  returns the empty array there.
\<close>

theorem getGroomers_throws_on_unparsable_text:
  "localStorage garbledState ''groomers'' = Some Garbled
   \<and> fst (getGroomers accepting garbledState 1000 (Fails timeout)) = Inl syntaxError
   \<and> fst (getGroomers accepting (garbledState\<lparr>groomersPermissionDenied := True\<rparr>) 1000 (Fails timeout))
       = Inl syntaxError
   \<and> fst (getGroomers accepting (garbledState\<lparr>firebaseDatabase := False\<rparr>) 1000 (Fails timeout))
       = Inl syntaxError
   \<and> fst (getBookings accepting garbledState 1000 (Fails timeout)) = Inr (Bookings [])"
proof -
  have t: "\<not> saysPermissionDenied timeout" "\<not> saysPermissionDenied syntaxError"
    by (simp_all add: saysPermissionDenied_def timeout_def syntaxError_def Error_def)
  show ?thesis
    using t
    by (simp add: getGroomers_def getGroomers_catch_def getBookings_def getBookings_catch_def
        localGroomersOrDefault_def groomersCacheFresh_def bookingsCacheFresh_def parseOr_def
        garbledState_def onlineState_def called_def Let_def)
qed

section \<open>Properties of the booking submission flow\<close>

text \<open>
  What the not-committed branch computes: it returns a record of the snapshot that has
  the attempted user, date, time and pet name, has \<open>serverGenerated = true\<close> and meets
  \<open>now - createdAt < 10000\<close>, and raises the duplicate-creation failure exactly when
  the snapshot holds no such record.
\<close>

lemma notCommitted_branch:
  "(case createBookingSecure_notCommitted uid bookingData now snapshot of
      Inr r \<Rightarrow>
        (\<exists>bookings. snapshot = Some bookings \<and> r \<in> snd ` set bookings)
        \<and> userId r = uid \<and> date r = date bookingData \<and> time r = time bookingData
        \<and> petName r = petName bookingData \<and> serverGenerated r
        \<and> (\<exists>t. createdAt r = Some t \<and> now - t < 10000)
    | Inl e \<Rightarrow>
        e = Error ''Booking creation failed - possible duplicate detected''
        \<and> (\<forall>bookings r. snapshot = Some bookings \<and> r \<in> snd ` set bookings \<longrightarrow>
              \<not> (userId r = uid \<and> date r = date bookingData \<and> time r = time bookingData
                  \<and> petName r = petName bookingData \<and> serverGenerated r
                  \<and> (\<exists>t. createdAt r = Some t \<and> now - t < 10000))))"
proof (cases snapshot)
  case None
  then show ?thesis
    by (simp add: createBookingSecure_notCommitted_def)
next
  case (Some bookings)
  have p: "isRecentBooking uid bookingData now r =
             (userId r = uid \<and> date r = date bookingData \<and> time r = time bookingData
              \<and> petName r = petName bookingData \<and> serverGenerated r
              \<and> (\<exists>t. createdAt r = Some t \<and> now - t < 10000))" for r
    by (cases "createdAt r") (simp_all add: isRecentBooking_def)
  show ?thesis
  proof (cases "find (isRecentBooking uid bookingData now) (map snd bookings)")
    case None
    then have "\<forall>r \<in> snd ` set bookings. \<not> isRecentBooking uid bookingData now r"
      by (simp add: find_None_iff)
    then have n: "\<forall>r \<in> snd ` set bookings.
              \<not> (userId r = uid \<and> date r = date bookingData \<and> time r = time bookingData
                  \<and> petName r = petName bookingData \<and> serverGenerated r
                  \<and> (\<exists>t. createdAt r = Some t \<and> now - t < 10000))"
      unfolding p .
    have "createBookingSecure_notCommitted uid bookingData now snapshot
            = Inl (Error ''Booking creation failed - possible duplicate detected'')"
      using None Some by (simp add: createBookingSecure_notCommitted_def)
    then show ?thesis
      using n Some by auto
  next
    case (Some r)
    then have "r \<in> snd ` set bookings" and "isRecentBooking uid bookingData now r"
      by (auto simp: find_Some_iff)
    then have m: "r \<in> snd ` set bookings"
      "userId r = uid \<and> date r = date bookingData \<and> time r = time bookingData
         \<and> petName r = petName bookingData \<and> serverGenerated r
         \<and> (\<exists>t. createdAt r = Some t \<and> now - t < 10000)"
      unfolding p by simp_all
    have "createBookingSecure_notCommitted uid bookingData now snapshot = Inr r"
      using Some \<open>snapshot = Some bookings\<close> by (simp add: createBookingSecure_notCommitted_def)
    then show ?thesis
      using m \<open>snapshot = Some bookings\<close> by auto
  qed
qed

lemma notCommitted_branch_example:
  "createBookingSecure_notCommitted (Some ''U'') bellaData 1000000 (Some [(''k1'', recentRecord)]) = Inr recentRecord
   \<and> recentRecord \<in> snd ` set [(''k1'', recentRecord)]
   \<and> userId recentRecord = Some ''U'' \<and> petName recentRecord = petName bellaData
   \<and> serverGenerated recentRecord
   \<and> (\<exists>t. createdAt recentRecord = Some t \<and> 1000000 - t < 10000)"
proof -
  have e: "createBookingSecure_notCommitted (Some ''U'') bellaData 1000000 (Some [(''k1'', recentRecord)]) = Inr recentRecord"
    by (simp add: createBookingSecure_notCommitted_def isRecentBooking_def recentRecord_def bellaData_def)
  show ?thesis
    using notCommitted_branch [where uid = "Some ''U''" and bookingData = bellaData
        and now = 1000000 and snapshot = "Some [(''k1'', recentRecord)]"] e
    by simp
qed

text \<open>
  C2 as stated fails on the code: the test \<open>(Date.now() - b.createdAt) < 10000\<close>,
  commented \<open>Created within last 10 seconds\<close>, has no lower bound, so a matching
  record whose \<open>createdAt\<close> lies an hour after now is returned as the created booking,
  although no record was created within 10 seconds of now and the duplicate-creation
  failure is due.
\<close>

theorem notCommitted_accepts_future_record:
  "createBookingSecure_notCommitted (Some ''U'') bellaData 1000000 (Some [(''k1'', futureRecord)]) = Inr futureRecord
   \<and> createdAt futureRecord = Some 4600000
   \<and> \<not> \<bar>1000000 - 4600000\<bar> < (10000 :: int)"
  by (simp add: createBookingSecure_notCommitted_def isRecentBooking_def futureRecord_def bellaData_def)

lemma isDuplicate_iff:
  "isDuplicate known booking = (\<exists>b \<in> set known. conflictsWith booking b)"
  by (auto simp: isDuplicate_def find_None_iff)

lemma isCancelled_iff:
  "isCancelled b = (status b \<in> {Some ''cancelledByCustomer'', Some ''cancelledByAdmin'', Some ''cancelledBySystem''})"
  by (cases "status b") (auto simp: isCancelled_def cancelledVariants_def)

lemma submitBooking_duplicate_fields:
  "records (submitBooking_duplicate pg tok booking) = records pg"
  "\<not> isSubmittingBooking (submitBooking_duplicate pg tok booking)"
  "step (submitBooking_duplicate pg tok booking) = 4"
  "\<not> loadingOverlay (submitBooking_duplicate pg tok booking)"
  by (simp_all add: submitBooking_duplicate_def Let_def split: option.splits)

text \<open>
  C1. The duplicate check classifies an attempt as BLOCKED exactly when a known booking
  of the same user has the same pet name (compared exactly), the same date and the same
  time and is not in a cancelled status; on BLOCKED \<open>submitBooking\<close> takes its duplicate
  branch, which leaves the booking records as they are, resets the submitting flag and
  shows step 4. An attempt whose date differs from that of every known booking is
  ALLOWED.
\<close>

theorem duplicate_check_blocks:
  "(classify known booking = BLOCKED) =
      (\<exists>b \<in> set known. userId b = userId booking \<and> petName b = petName booking
          \<and> date b = date booking \<and> time b = time booking
          \<and> status b \<notin> {Some ''cancelledByCustomer'', Some ''cancelledByAdmin'', Some ''cancelledBySystem''})
   \<and> (classify known booking = BLOCKED \<longrightarrow>
        (\<exists>pg'. submitBooking pg known tok booking = Some pg' \<and> records pg' = records pg
           \<and> \<not> isSubmittingBooking pg' \<and> step pg' = 4))
   \<and> (classify known booking = ALLOWED \<longrightarrow> submitBooking pg known tok booking = None)
   \<and> ((\<forall>b \<in> set known. date b \<noteq> date booking) \<longrightarrow> classify known booking = ALLOWED)"
proof -
  have c: "(classify known booking = BLOCKED) = isDuplicate known booking"
    "(classify known booking = ALLOWED) = (\<not> isDuplicate known booking)"
    by (simp_all add: classify_def)
  have d: "isDuplicate known booking =
      (\<exists>b \<in> set known. userId b = userId booking \<and> petName b = petName booking
          \<and> date b = date booking \<and> time b = time booking
          \<and> status b \<notin> {Some ''cancelledByCustomer'', Some ''cancelledByAdmin'', Some ''cancelledBySystem''})"
    unfolding isDuplicate_iff conflictsWith_def isCancelled_iff by blast
  have s: "isDuplicate known booking \<Longrightarrow>
        \<exists>pg'. submitBooking pg known tok booking = Some pg' \<and> records pg' = records pg
           \<and> \<not> isSubmittingBooking pg' \<and> step pg' = 4"
    by (simp add: submitBooking_def submitBooking_duplicate_fields)
  have n: "\<not> isDuplicate known booking \<Longrightarrow> submitBooking pg known tok booking = None"
    by (simp add: submitBooking_def)
  have a: "\<forall>b \<in> set known. date b \<noteq> date booking \<Longrightarrow> \<not> isDuplicate known booking"
    unfolding d by blast
  show ?thesis
    unfolding c using d s n a by blast
qed

theorem duplicate_check_blocks_witness:
  "maxExisting \<in> set [maxExisting]
   \<and> classify [maxExisting] maxAttempt = BLOCKED
   \<and> (\<exists>pg'. submitBooking idlePage [maxExisting] (Some ''tok-1'') maxAttempt = Some pg'
         \<and> records pg' = records idlePage \<and> \<not> isSubmittingBooking pg' \<and> step pg' = 4)
   \<and> date maxExisting \<noteq> date (maxAttempt\<lparr>date := Some ''2025-06-08''\<rparr>)
   \<and> classify [maxExisting] (maxAttempt\<lparr>date := Some ''2025-06-08''\<rparr>) = ALLOWED"
proof -
  note T1 = duplicate_check_blocks [where known = "[maxExisting]" and booking = maxAttempt
      and pg = idlePage and tok = "Some ''tok-1''"]
  note T2 = duplicate_check_blocks [where known = "[maxExisting]"
      and booking = "maxAttempt\<lparr>date := Some ''2025-06-08''\<rparr>" and pg = idlePage and tok = "Some ''tok-1''"]
  have b: "classify [maxExisting] maxAttempt = BLOCKED"
    using T1 by (simp add: maxExisting_def maxAttempt_def mkBooking_def)
  have d: "\<forall>b \<in> set [maxExisting]. date b \<noteq> date (maxAttempt\<lparr>date := Some ''2025-06-08''\<rparr>)"
    by (simp add: maxExisting_def mkBooking_def)
  show ?thesis
    using T1 T2 b d by simp
qed

end
